theory Spec2Isabelle
  imports Complex_Main "HOL-Library.AList"
begin

section \<open>Python values and exceptions\<close>

text \<open>
  JSON-like Python values: the request bodies the query set compiles and the raw
  responses the result set decodes. A dict is an association list in insertion order.
\<close>

datatype json =
    JNull
  | JBool bool
  | JInt int
  | JFloat rat
  | JStr string
  | JList "json list"
  | JObj "(string \<times> json) list"

text \<open>
  The exceptions the modelled code raises. The payload of a builtin exception is its
  argument; the engine-error classes of \<open>exceptions.py\<close> carry \<open>error\<close> and \<open>status\<close>
  (the request body they also carry is not modelled).
\<close>

datatype error =
    ValueError json
  | TypeError json
  | KeyError json
  | AttributeError json
  | RuntimeError json
  | NotImplementedError json
  | InvalidQuerySet string
  | UnknownError json json
  | NoServerAvailable string
  | SearchError json json
  | IndexMissingException json json
  | DocumentMissingException json json
  | TooComplexToDetermine json json
  | ObjectDoesNotExist

definition bindE :: "error + 'a \<Rightarrow> ('a \<Rightarrow> error + 'b) \<Rightarrow> error + 'b" where
  "bindE m f = (case m of Inl e \<Rightarrow> Inl e | Inr x \<Rightarrow> f x)"

fun sequence_sum :: "(error + 'a) list \<Rightarrow> error + 'a list" where
  "sequence_sum [] = Inr []"
| "sequence_sum (Inl e # _) = Inl e"
| "sequence_sum (Inr x # rs) =
     (case sequence_sum rs of Inl e \<Rightarrow> Inl e | Inr xs \<Rightarrow> Inr (x # xs))"

text \<open>Truth value of a Python value (\<open>if x:\<close>).\<close>

fun py_truthy :: "json \<Rightarrow> bool" where
  "py_truthy JNull = False"
| "py_truthy (JBool b) = b"
| "py_truthy (JInt n) = (n \<noteq> 0)"
| "py_truthy (JFloat r) = (r \<noteq> 0)"
| "py_truthy (JStr s) = (s \<noteq> [])"
| "py_truthy (JList xs) = (xs \<noteq> [])"
| "py_truthy (JObj kvs) = (kvs \<noteq> [])"

text \<open>\<open>obj[key]\<close> with a string key: only a dict accepts it.\<close>

fun py_getitem :: "json \<Rightarrow> string \<Rightarrow> error + json" where
  "py_getitem (JObj kvs) k =
     (case map_of kvs k of None \<Rightarrow> Inl (KeyError (JStr k)) | Some v \<Rightarrow> Inr v)"
| "py_getitem _ k = Inl (TypeError (JStr ''subscript''))"

fun is_substring :: "string \<Rightarrow> string \<Rightarrow> bool" where
  "is_substring p [] = (p = [])"
| "is_substring p (c # cs) = (take (length p) (c # cs) = p \<or> is_substring p cs)"

text \<open>\<open>key in obj\<close> with a string key.\<close>

fun py_in :: "string \<Rightarrow> json \<Rightarrow> error + bool" where
  "py_in k (JObj kvs) = Inr (map_of kvs k \<noteq> None)"
| "py_in k (JList xs) = Inr (JStr k \<in> set xs)"
| "py_in k (JStr s) = Inr (is_substring k s)"
| "py_in k _ = Inl (TypeError (JStr ''not iterable''))"

text \<open>\<open>for x in obj\<close>: the items the loop visits.\<close>

fun py_iter :: "json \<Rightarrow> error + json list" where
  "py_iter (JList xs) = Inr xs"
| "py_iter (JObj kvs) = Inr (map (\<lambda>kv. JStr (fst kv)) kvs)"
| "py_iter (JStr s) = Inr (map (\<lambda>c. JStr [c]) s)"
| "py_iter _ = Inl (TypeError (JStr ''not iterable''))"

fun py_len :: "json \<Rightarrow> error + nat" where
  "py_len (JList xs) = Inr (length xs)"
| "py_len (JObj kvs) = Inr (length kvs)"
| "py_len (JStr s) = Inr (length s)"
| "py_len _ = Inl (TypeError (JStr ''no len''))"

text \<open>\<open>isinstance(x, int)\<close>; a Python bool is an int.\<close>

fun py_isinstance_int :: "json \<Rightarrow> bool" where
  "py_isinstance_int (JInt _) = True"
| "py_isinstance_int (JBool _) = True"
| "py_isinstance_int _ = False"

section \<open>Queries (queries.py)\<close>

text \<open>
  Modelled from the spec: the Filter class of \<open>filters.py\<close>, which is not among the
  sources. A filter has a field name, an operator kind, its values and the \<open>is_multi\<close>
  flag; it is immutable after construction. Its \<open>to_dict\<close> is a parameter \<open>fd\<close> of the
  functions below.
\<close>

datatype es_filter = Filter (fname: string) (fkind: string) (fvalues: "json list") (is_multi: bool)

text \<open>
  The Query classes. A Filter stands wherever a query is expected (both have \<open>to_dict\<close>).
  \<open>BoolQuery\<close> holds \<open>must\<close>, \<open>maybe\<close>, \<open>must_not\<close>, \<open>filter\<close> and
  \<open>minimum_should_match\<close>; its \<open>name\<close> and \<open>options\<close> attributes are never read and are
  left out. The argument of \<open>NegativeBoost\<close> is a dict, a list of queries, or (as the
  query set passes it) a single query object.
\<close>

datatype query =
    TermQuery string json
  | MatchAllQuery
  | ConstantScoreQuery query
  | FuzzyQuery string json json json
  | MultiMatchQuery json string json json json "(string \<times> json) list"
  | MatchQuery string json json json
  | MatchPhrasePrefixQuery string json json
  | BoolQuery "query list option" "query list option" "query list option"
              "query option" "int option"
  | NegativeBoost inner_set "inner_set option" json
  | FilterQ es_filter
and inner_set =
    IDict "(string \<times> json) list"
  | IList "query list"
  | IObj query

fun clauses :: "'a list option \<Rightarrow> 'a list" where
  "clauses None = []"
| "clauses (Some qs) = qs"

fun int_truthy :: "int option \<Rightarrow> bool" where
  "int_truthy None = False"
| "int_truthy (Some n) = (n \<noteq> 0)"

fun inner_truthy :: "inner_set \<Rightarrow> bool" where
  "inner_truthy (IDict d) = (d \<noteq> [])"
| "inner_truthy (IList qs) = (qs \<noteq> [])"
| "inner_truthy (IObj q) = True"

fun msm_entry :: "int option \<Rightarrow> (string \<times> json) list" where
  "msm_entry None = []"
| "msm_entry (Some n) = (if n \<noteq> 0 then [(''minimum_should_match'', JInt n)] else [])"

text \<open>\<open>ConstantScoreQuery.__init__\<close>: a missing filter is refused.\<close>

fun ConstantScoreQuery_init :: "query option \<Rightarrow> error + query" where
  "ConstantScoreQuery_init None =
     Inl (ValueError (JStr ''Cannot run constant score without a filter''))"
| "ConstantScoreQuery_init (Some f) = Inr (ConstantScoreQuery f)"

text \<open>\<open>BoolQuery.__init__\<close>, its three checks in the source's order.\<close>

definition BoolQuery_init ::
  "query list option \<Rightarrow> query list option \<Rightarrow> query list option \<Rightarrow> query option \<Rightarrow>
   int option \<Rightarrow> bool \<Rightarrow> error + query" where
  "BoolQuery_init must maybe must_not filt minimum_should_match acts_as_filter =
     (if int_truthy minimum_should_match \<and> clauses maybe = [] then
        Inl (ValueError (JStr
          ''minimum_should_match can only be used in conjuction with optional matches.''))
      else if clauses must_not \<noteq> [] \<and>
              \<not> (clauses must \<noteq> [] \<or> clauses maybe \<noteq> [] \<or> acts_as_filter) then
        Inl (InvalidQuerySet
          ''It is not possible to search on documents that only consists of a must_not clauses'')
      else if \<not> (clauses must \<noteq> [] \<or> clauses maybe \<noteq> [] \<or> clauses must_not \<noteq> []) then
        Inl (InvalidQuerySet
          ''A must or should clause is necessary to execute a Boolean Query'')
      else Inr (BoolQuery must maybe must_not filt minimum_should_match))"

text \<open>
  A dict literal followed by \<open>**extra\<close>: a later key replaces the value of an earlier
  one in place, a new key is appended.
\<close>

fun dict_update :: "(string \<times> json) list \<Rightarrow> (string \<times> json) list \<Rightarrow> (string \<times> json) list" where
  "dict_update d [] = d"
| "dict_update d ((k, v) # kvs) = dict_update (AList.update k v d) kvs"

definition entry :: "bool \<Rightarrow> string \<Rightarrow> json \<Rightarrow> (string \<times> json) list" where
  "entry c k v = (if c then [(k, v)] else [])"

text \<open>The size of a clause, for the termination of \<open>to_dict\<close>.\<close>

lemma size_member: "x \<in> set xs \<Longrightarrow> size x \<le> size_list size xs"
  by (induction xs) auto

lemma size_clauses:
  "x \<in> set (clauses qs) \<Longrightarrow> size x \<le> size_option (size_list size) qs"
  using size_member by (cases qs) fastforce+

text \<open>
  \<open>to_dict\<close> of every query class. \<open>NegativeBoost._serialize_inner_queries\<close> returns a
  dict as it is and iterates over anything else, which raises on a single query object.
\<close>

function to_dict :: "(es_filter \<Rightarrow> json) \<Rightarrow> query \<Rightarrow> error + json"
and serialize_inner_queries :: "(es_filter \<Rightarrow> json) \<Rightarrow> inner_set \<Rightarrow> error + json" where
  "to_dict fd (TermQuery field v) = Inr (JObj [(''term'', JObj [(field, v)])])"
| "to_dict fd MatchAllQuery = Inr (JObj [(''match_all'', JObj [])])"
| "to_dict fd (ConstantScoreQuery f) =
     (case to_dict fd f of Inl e \<Rightarrow> Inl e
      | Inr j \<Rightarrow> Inr (JObj [(''constant_score'', JObj [(''filter'', j)])]))"
| "to_dict fd (FuzzyQuery field v boost prefix_length) =
     Inr (JObj [(''fuzzy'', JObj [(field,
        JObj [(''value'', v), (''boost'', boost), (''prefix_length'', prefix_length)])])])"
| "to_dict fd (MultiMatchQuery fields v search_type tie_breaker operator extra) =
     Inr (JObj [(''multi_match'', JObj (dict_update
        [(''query'', JStr v), (''fields'', fields), (''type'', search_type),
         (''tie_breaker'', tie_breaker), (''operator'', operator)] extra))])"
| "to_dict fd (MatchQuery field v search_type max_expansions) =
     Inr (JObj [(''match'', JObj [(field,
        JObj [(''query'', v), (''max_expansions'', max_expansions)])])])"
| "to_dict fd (MatchPhrasePrefixQuery field v max_expansions) =
     Inr (JObj [(''match_phrase_prefix'', JObj [(field,
        JObj [(''query'', v), (''max_expansions'', max_expansions)])])])"
| "to_dict fd (BoolQuery must maybe must_not filt minimum_should_match) =
     (case sequence_sum (map (to_dict fd) (clauses must)) of Inl e \<Rightarrow> Inl e
      | Inr ms \<Rightarrow>
     (case sequence_sum (map (to_dict fd) (clauses maybe)) of Inl e \<Rightarrow> Inl e
      | Inr ss \<Rightarrow>
     (case sequence_sum (map (to_dict fd) (clauses must_not)) of Inl e \<Rightarrow> Inl e
      | Inr ns \<Rightarrow>
     (case (case filt of None \<Rightarrow> Inr [] | Some f \<Rightarrow>
              (case to_dict fd f of Inl e \<Rightarrow> Inl e | Inr j \<Rightarrow> Inr [(''filter'', j)])) of
        Inl e \<Rightarrow> Inl e
      | Inr fs \<Rightarrow>
          Inr (JObj [(''bool'', JObj (
            msm_entry minimum_should_match
            @ entry (clauses must \<noteq> []) ''must'' (JList ms)
            @ entry (clauses maybe \<noteq> []) ''should'' (JList ss)
            @ entry (clauses must_not \<noteq> []) ''must_not'' (JList ns)
            @ fs))])))))"
| "to_dict fd (NegativeBoost negative positive negative_boost) =
     (case (case positive of None \<Rightarrow> Inr []
            | Some p \<Rightarrow>
                if inner_truthy p
                then (case serialize_inner_queries fd p of
                        Inl e \<Rightarrow> Inl e | Inr j \<Rightarrow> Inr [(''positive'', j)])
                else Inr []) of
        Inl e \<Rightarrow> Inl e
      | Inr ps \<Rightarrow>
     (case (if inner_truthy negative
            then (case serialize_inner_queries fd negative of
                    Inl e \<Rightarrow> Inl e | Inr j \<Rightarrow> Inr [(''negative'', j)])
            else Inr []) of
        Inl e \<Rightarrow> Inl e
      | Inr ns \<Rightarrow>
          Inr (JObj [(''boosting'', JObj ([(''negative_boost'', negative_boost)] @ ps @ ns))])))"
| "to_dict fd (FilterQ f) = Inr (fd f)"
| "serialize_inner_queries fd (IDict d) = Inr (JObj d)"
| "serialize_inner_queries fd (IList qs) =
     (case sequence_sum (map (to_dict fd) qs) of Inl e \<Rightarrow> Inl e | Inr js \<Rightarrow> Inr (JList js))"
| "serialize_inner_queries fd (IObj q) = Inl (TypeError (JStr ''object is not iterable''))"
  by pat_completeness auto
termination
proof (relation "measure (case_sum (\<lambda>p. size (snd p)) (\<lambda>p. size (snd p)))", goal_cases)
  case 1
  show ?case by simp
next
  case (3 fd must maybe must_not filt msm x)
  then show ?case using size_clauses [of x must] by simp
next
  case (4 fd must maybe must_not filt msm ms x)
  then show ?case using size_clauses [of x maybe] by simp
next
  case (5 fd must maybe must_not filt msm ms ss x)
  then show ?case using size_clauses [of x must_not] by simp
next
  case (9 fd qs x)
  then show ?case using size_member [of x qs] by simp
qed simp_all

section \<open>Result sets (result_set.py)\<close>

text \<open>
  The attributes \<open>ResultSet.__init__\<close> assigns. \<open>total\<close> is \<open>JNull\<close> for Python's None;
  \<open>total_relation\<close> is \<open>None\<close> when the attribute was never assigned. The caches
  \<open>_objects\<close> and \<open>_object_dictionary\<close> and \<open>explain\<close> start empty and are not modelled.
\<close>

record result_set =
  rs_raw :: json
  rs_hits :: json
  rs_documents :: json
  rs_shards :: json
  total :: json
  total_relation :: "json option"
  max_score :: json
  aggregations :: "(string \<times> json) list"

text \<open>Lines 79 to 94 of \<open>ResultSet.__init__\<close>: the total and its relation.\<close>

definition decode_total :: "json \<Rightarrow> error + (json \<times> json option)" where
  "decode_total hits =
     bindE (py_in ''total'' hits) (\<lambda>present.
       if present then
         bindE (py_getitem hits ''total'') (\<lambda>t.
           if py_isinstance_int t then Inr (t, Some (JStr ''eq''))
           else bindE (py_getitem t ''value'') (\<lambda>v.
                bindE (py_getitem t ''relation'') (\<lambda>r. Inr (v, Some r))))
       else Inr (JNull, None))"

fun py_items :: "json \<Rightarrow> error + (string \<times> json) list" where
  "py_items (JObj kvs) = Inr kvs"
| "py_items _ = Inl (AttributeError (JStr ''items''))"

text \<open>The loop over the aggregation items: an entry that is not a dict is skipped.\<close>

fun collect_buckets ::
  "(string \<times> json) list \<Rightarrow> (string \<times> json) list \<Rightarrow> error + (string \<times> json) list" where
  "collect_buckets acc [] = Inr acc"
| "collect_buckets acc ((name, results) # rest) =
     (case results of
        JObj kvs \<Rightarrow>
          (case py_getitem results ''buckets'' of
             Inl e \<Rightarrow> Inl e
           | Inr b \<Rightarrow> collect_buckets (AList.update name b acc) rest)
      | _ \<Rightarrow> collect_buckets acc rest)"

definition decode_aggregations :: "json \<Rightarrow> error + (string \<times> json) list" where
  "decode_aggregations response =
     bindE (py_in ''aggregations'' response) (\<lambda>present.
       if present then
         bindE (py_getitem response ''aggregations'') (\<lambda>aggs.
         bindE (py_in ''__sampler__'' aggs) (\<lambda>sampled.
         bindE (if sampled then py_getitem aggs ''__sampler__'' else Inr aggs)
           (\<lambda>aggregation_items.
         bindE (py_items aggregation_items) (collect_buckets []))))
       else Inr [])"

definition ResultSet_init :: "json \<Rightarrow> error + result_set" where
  "ResultSet_init response =
     bindE (py_getitem response ''hits'') (\<lambda>hits.
     bindE (py_getitem hits ''hits'') (\<lambda>documents.
     bindE (py_getitem response ''_shards'') (\<lambda>shards.
     bindE (decode_total hits) (\<lambda>tr.
     bindE (py_getitem hits ''max_score'') (\<lambda>ms.
     bindE (decode_aggregations response) (\<lambda>aggs.
       Inr \<lparr> rs_raw = response, rs_hits = hits, rs_documents = documents,
             rs_shards = shards, total = fst tr, total_relation = snd tr,
             max_score = ms, aggregations = aggs \<rparr>))))))"

text \<open>\<open>__len__\<close> and \<open>__bool__\<close>.\<close>

definition rs_len :: "result_set \<Rightarrow> error + nat" where
  "rs_len rs = py_len (rs_documents rs)"

definition rs_bool :: "result_set \<Rightarrow> error + bool" where
  "rs_bool rs = bindE (py_len (rs_documents rs)) (\<lambda>n. Inr (n = 0))"

section \<open>Classifying engine errors (utils.py)\<close>

text \<open>
  \<open>__match_error\<close> always raises; the result type keeps the shape of the caller's loop.
  A raised engine error carries the \<open>error\<close> entry and the status.
\<close>

definition match_error :: "json \<Rightarrow> json \<Rightarrow> error + unit" where
  "match_error err status =
     bindE (py_getitem err ''type'') (\<lambda>error_type.
       if error_type = JStr ''index_not_found_exception''
         then Inl (IndexMissingException err status)
       else if error_type = JStr ''document_missing_exception''
         then Inl (DocumentMissingException err status)
       else if error_type = JStr ''too_complex_to_determinize_exception''
         then Inl (TooComplexToDetermine err status)
       else Inl (SearchError err status))"

fun match_errors :: "json list \<Rightarrow> json \<Rightarrow> error + unit" where
  "match_errors [] status = Inr ()"
| "match_errors (err # rest) status =
     (case match_error err status of Inl e \<Rightarrow> Inl e | Inr _ \<Rightarrow> match_errors rest status)"

text \<open>
  \<open>raise_on_transport_error\<close> on \<open>e.info\<close> and \<open>e.status_code\<close>. \<open>Inr ()\<close> is a return
  without raising. A \<open>TypeError\<close> inside the \<open>try\<close> becomes \<open>ValueError(raw_error)\<close>.
  \<open>UnknownError\<close> carries the payload itself where the source carries its \<open>str\<close>.
\<close>

definition raise_on_transport_error :: "json \<Rightarrow> json \<Rightarrow> error + unit" where
  "raise_on_transport_error result status =
     (case result of
        JObj kvs \<Rightarrow>
          (case map_of kvs ''error'' of
             None \<Rightarrow> Inl (UnknownError result status)
           | Some raw_error \<Rightarrow>
               (case bindE (py_getitem raw_error ''root_cause'') (\<lambda>error_list.
                     bindE (py_iter error_list) (\<lambda>errs. match_errors errs status)) of
                  Inl (TypeError _) \<Rightarrow> Inl (ValueError raw_error)
                | r \<Rightarrow> r))
      | _ \<Rightarrow> Inl (UnknownError result status))"

section \<open>Model reconstruction (app/models.py)\<close>

text \<open>
  What \<open>SuspendersModel\<close> derives from its declared fields: the names of the complex
  (nested map) fields, of the nullable fields and of the date fields.
\<close>

record schema =
  complex_field_names :: "string list"
  nullable_fields :: "string list"
  datetime_fields :: "string list"

text \<open>
  \<open>int(x)\<close>. The parsing of a decimal string is Python's own and is the parameter
  \<open>str_to_int\<close> (\<open>None\<close> where \<open>int\<close> raises \<open>ValueError\<close>).
\<close>

fun py_int :: "(string \<Rightarrow> int option) \<Rightarrow> json \<Rightarrow> error + int" where
  "py_int str_to_int (JInt n) = Inr n"
| "py_int str_to_int (JBool b) = Inr (if b then 1 else 0)"
| "py_int str_to_int (JFloat r) = Inr (if 0 \<le> r then \<lfloor>r\<rfloor> else \<lceil>r\<rceil>)"
| "py_int str_to_int (JStr s) =
     (case str_to_int s of None \<Rightarrow> Inl (ValueError (JStr s)) | Some n \<Rightarrow> Inr n)"
| "py_int str_to_int _ = Inl (TypeError (JStr ''int''))"

text \<open>
  \<open>convert_str_to_datetime\<close>: a string is parsed (\<open>pendulum.parse\<close>, the parameter
  \<open>parse_date\<close>), anything else is returned as it is.
\<close>

fun convert_str_to_datetime :: "(string \<Rightarrow> error + json) \<Rightarrow> json \<Rightarrow> error + json" where
  "convert_str_to_datetime parse_date (JStr s) = parse_date s"
| "convert_str_to_datetime parse_date obj = Inr obj"

fun convert_dates ::
  "(string \<Rightarrow> error + json) \<Rightarrow> string list \<Rightarrow> (string \<times> json) list \<Rightarrow>
   error + (string \<times> json) list" where
  "convert_dates parse_date [] load_fields = Inr load_fields"
| "convert_dates parse_date (key # keys) load_fields =
     (case convert_str_to_datetime parse_date
             (case map_of load_fields key of None \<Rightarrow> JNull | Some v \<Rightarrow> v) of
        Inl e \<Rightarrow> Inl e
      | Inr d \<Rightarrow> convert_dates parse_date keys (AList.update key d load_fields))"

fun add_nullable :: "string list \<Rightarrow> (string \<times> json) list \<Rightarrow> (string \<times> json) list" where
  "add_nullable [] load_fields = load_fields"
| "add_nullable (field_name # names) load_fields =
     add_nullable names
       (if map_of load_fields field_name = None
        then AList.update field_name JNull load_fields else load_fields)"

text \<open>\<open>SuspendersModel.process_load_fields\<close>.\<close>

definition process_load_fields ::
  "(string \<Rightarrow> int option) \<Rightarrow> (string \<Rightarrow> error + json) \<Rightarrow> schema \<Rightarrow>
   (string \<times> json) list \<Rightarrow> error + (string \<times> json) list" where
  "process_load_fields str_to_int parse_date sc load_fields =
     bindE (py_getitem (JObj load_fields) ''id'') (\<lambda>raw_id.
     bindE (py_int str_to_int raw_id) (\<lambda>n.
     bindE (convert_dates parse_date (datetime_fields sc)
              (AList.update ''id'' (JInt n) load_fields)) (\<lambda>lf.
       Inr (add_nullable (nullable_fields sc) lf))))"

text \<open>
  \<open>SuspendersModel.type_from_fields\<close> up to the construction of the Django model
  object: the load fields the model constructor receives. \<open>plf\<close> is the
  \<open>process_load_fields\<close> method in force (a subclass may override it).
\<close>

definition type_from_fields ::
  "((string \<times> json) list \<Rightarrow> error + (string \<times> json) list) \<Rightarrow> schema \<Rightarrow> json \<Rightarrow>
   error + (string \<times> json) list" where
  "type_from_fields plf sc base =
     bindE (py_items base) (\<lambda>items.
     bindE (plf (filter (\<lambda>kv. fst kv \<notin> set (complex_field_names sc)) items)) (\<lambda>load_fields.
       if map_of load_fields ''id'' = None
       then Inl (TypeError (JStr ''id not present in load_fields''))
       else Inr load_fields))"

section \<open>Aggregations (aggregations.py)\<close>

record top_hits =
  th_name :: string
  th_size :: json
  th_sort :: json

text \<open>\<open>TopHits.serialize\<close>: the single entry of the dict it returns.\<close>

definition TopHits_serialize :: "top_hits \<Rightarrow> string \<times> json" where
  "TopHits_serialize th =
     (th_name th, JObj [(''top_hits'', JObj [(''sort'', th_sort th), (''size'', th_size th)])])"

text \<open>
  The terms aggregation, class \<open>TermsFilter\<close> of \<open>aggregations.py\<close> (the query set
  imports it under the name \<open>TermsAggregation\<close>). An attribute that is None is \<open>JNull\<close>.
\<close>

record terms_aggregation =
  agg_field :: string
  agg_name :: string
  agg_size :: json
  agg_order :: json
  agg_include :: json
  agg_exclude :: json
  agg_regex :: json
  agg_regex_flags :: json
  agg_script :: json
  agg_min_doc_count :: json
  agg_with_top_hits :: "top_hits option"

text \<open>
  \<open>TermsFilter.__init__\<close> as the query set calls it: \<open>regex\<close>, \<open>regex_flags\<close> and
  \<open>script\<close> can only arrive through \<open>kwargs\<close>, and any other keyword reaches
  \<open>object.__init__\<close>, which refuses it.
\<close>

definition TermsFilter_init ::
  "string \<Rightarrow> string \<Rightarrow> json \<Rightarrow> json \<Rightarrow> json \<Rightarrow> json \<Rightarrow> json \<Rightarrow> top_hits option \<Rightarrow>
   (string \<times> json) list \<Rightarrow> error + terms_aggregation" where
  "TermsFilter_init field name size_arg order exclude include min_doc_count with_top_hits kwargs =
     (if \<exists>k \<in> fst ` set kwargs. k \<notin> {''regex'', ''regex_flags'', ''script''}
      then Inl (TypeError (JStr ''unexpected keyword argument''))
      else Inr \<lparr> agg_field = field, agg_name = name, agg_size = size_arg, agg_order = order,
                 agg_include = include,
                 agg_exclude = (if py_truthy exclude then exclude else JList []),
                 agg_regex = (case map_of kwargs ''regex'' of None \<Rightarrow> JNull | Some v \<Rightarrow> v),
                 agg_regex_flags =
                   (case map_of kwargs ''regex_flags'' of None \<Rightarrow> JStr ''DOTALL'' | Some v \<Rightarrow> v),
                 agg_script = (case map_of kwargs ''script'' of None \<Rightarrow> JNull | Some v \<Rightarrow> v),
                 agg_min_doc_count = min_doc_count,
                 agg_with_top_hits = with_top_hits \<rparr>)"

text \<open>\<open>TermsFilter.serialize\<close>: the single entry of the dict it returns.\<close>

definition TermsFilter_serialize :: "terms_aggregation \<Rightarrow> error + (string \<times> json)" where
  "TermsFilter_serialize a =
     (if py_truthy (agg_order a) \<and>
         agg_order a \<notin> {JStr ''count'', JStr ''term'', JStr ''reverse_count'', JStr ''reverse_term''}
      then Inl (RuntimeError (JStr ''Invalid order value''))
      else Inr (agg_name a, JObj (
        [(''terms'', JObj (
            [(''field'', JStr (agg_field a))]
            @ entry (agg_min_doc_count a \<noteq> JNull) ''min_doc_count'' (agg_min_doc_count a)
            @ entry (py_truthy (agg_size a)) ''size'' (agg_size a)
            @ entry (py_truthy (agg_order a)) ''order'' (agg_order a)
            @ entry (py_truthy (agg_include a)) ''include'' (agg_include a)
            @ entry (py_truthy (agg_exclude a)) ''exclude'' (agg_exclude a)
            @ (if py_truthy (agg_regex a)
               then [(''regex'', agg_regex a)]
                    @ entry (py_truthy (agg_regex_flags a)) ''regex_flags'' (agg_regex_flags a)
               else entry (py_truthy (agg_script a)) ''script'' (agg_script a))))]
        @ (case agg_with_top_hits a of None \<Rightarrow> []
           | Some th \<Rightarrow> [(''aggregations'', JObj [TopHits_serialize th])]))))"

section \<open>The query set (query_set.py)\<close>

subsection \<open>Objects and references\<close>

text \<open>
  The query set mutates lists and dicts in place and its methods are called on shared
  instances, so the mutable objects live in a store: a reference is the index of a cell.
  Queries, filters and aggregations are never mutated after construction and are values.
\<close>

type_synonym ref = nat

record query_set =
  qs_conn :: nat
  qs_min_score :: json
  qs_from :: int
  qs_page_size :: int
  qs_sort :: ref
  qs_must_search_set :: ref
  qs_optional_search_set :: ref
  qs_filters :: ref
  qs_negative_boost_queries :: ref
  qs_aggs_fields :: ref
  qs_is_none_set :: bool
  qs_result_set :: "result_set option"
  qs_minimum_should_match :: int
  qs_aggregations_use_sampler :: bool
  qs_track_total_hits :: bool

text \<open>
  A cell holds a list of queries, a sort list (each entry the dict \<open>{key: value}\<close>), a
  list of aggregations, the dict of a \<open>FilterDict\<close> (key to polarity and filter), a
  \<open>FilterDict\<close> instance (the reference of its dict) or a query set instance.
\<close>

datatype cell =
    QueryList "query list"
  | SortList "(string \<times> string) list"
  | AggList "terms_aggregation list"
  | Dict "(string \<times> (string \<times> es_filter)) list"
  | FilterDictObj ref
  | QuerySetObj query_set

text \<open>A call of the document store, as the connection receives it.\<close>

datatype io_call = SearchCall json json json | CountCall json json

text \<open>The store of objects, the messages logged and the calls made so far.\<close>

record world =
  w_heap :: "cell list"
  w_log :: "string list"
  w_calls :: "io_call list"

definition lookup :: "world \<Rightarrow> ref \<Rightarrow> cell option" where
  "lookup w r = (if r < length (w_heap w) then Some (w_heap w ! r) else None)"

definition alloc :: "world \<Rightarrow> cell \<Rightarrow> world \<times> ref" where
  "alloc w c = (w\<lparr>w_heap := w_heap w @ [c]\<rparr>, length (w_heap w))"

definition store :: "world \<Rightarrow> ref \<Rightarrow> cell \<Rightarrow> world" where
  "store w r c = w\<lparr>w_heap := (w_heap w)[r := c]\<rparr>"

text \<open>
  Reading an attribute of the expected class. On a reference that holds something else
  the methods below raise \<open>AttributeError\<close>.
\<close>

definition get_query_set :: "world \<Rightarrow> ref \<Rightarrow> query_set option" where
  "get_query_set w r = (case lookup w r of Some (QuerySetObj qs) \<Rightarrow> Some qs | _ \<Rightarrow> None)"

definition get_queries :: "world \<Rightarrow> ref \<Rightarrow> query list option" where
  "get_queries w r = (case lookup w r of Some (QueryList qs) \<Rightarrow> Some qs | _ \<Rightarrow> None)"

definition get_sort :: "world \<Rightarrow> ref \<Rightarrow> (string \<times> string) list option" where
  "get_sort w r = (case lookup w r of Some (SortList s) \<Rightarrow> Some s | _ \<Rightarrow> None)"

definition get_aggs :: "world \<Rightarrow> ref \<Rightarrow> terms_aggregation list option" where
  "get_aggs w r = (case lookup w r of Some (AggList a) \<Rightarrow> Some a | _ \<Rightarrow> None)"

definition get_filter_dict :: "world \<Rightarrow> ref \<Rightarrow> ref option" where
  "get_filter_dict w r = (case lookup w r of Some (FilterDictObj d) \<Rightarrow> Some d | _ \<Rightarrow> None)"

definition get_dict :: "world \<Rightarrow> ref \<Rightarrow> (string \<times> (string \<times> es_filter)) list option" where
  "get_dict w r = (case lookup w r of Some (Dict d) \<Rightarrow> Some d | _ \<Rightarrow> None)"

text \<open>The filters of the \<open>FilterDict\<close> at \<open>r\<close>: the content of its dict.\<close>

definition get_filters :: "world \<Rightarrow> ref \<Rightarrow> (string \<times> (string \<times> es_filter)) list option" where
  "get_filters w r = (case get_filter_dict w r of None \<Rightarrow> None | Some d \<Rightarrow> get_dict w d)"

definition no_attr :: error where
  "no_attr = AttributeError (JStr ''attribute'')"

subsection \<open>Construction and copy\<close>

text \<open>\<open>SuspendersQuerySet.__init__\<close>: fresh empty lists and a fresh \<open>FilterDict\<close>.\<close>

definition QuerySet_init :: "nat \<Rightarrow> world \<Rightarrow> world \<times> ref" where
  "QuerySet_init conn_arg w =
     (let (w1, s) = alloc w (SortList []);
          (w2, m) = alloc w1 (QueryList []);
          (w3, opt) = alloc w2 (QueryList []);
          (w4, d) = alloc w3 (Dict []);
          (w5, f) = alloc w4 (FilterDictObj d);
          (w6, n) = alloc w5 (QueryList []);
          (w7, a) = alloc w6 (AggList [])
      in alloc w7 (QuerySetObj
           \<lparr> qs_conn = conn_arg, qs_min_score = JNull, qs_from = 0, qs_page_size = 10,
             qs_sort = s, qs_must_search_set = m, qs_optional_search_set = opt,
             qs_filters = f, qs_negative_boost_queries = n, qs_aggs_fields = a,
             qs_is_none_set = False, qs_result_set = None, qs_minimum_should_match = 1,
             qs_aggregations_use_sampler = False, qs_track_total_hits = False \<rparr>))"

text \<open>
  One attribute in the loop of \<open>copy\<close>: a list becomes \<open>list(value)\<close>, a \<open>FilterDict\<close>
  becomes \<open>value.copy()\<close> (a new instance around a copy of its dict), anything else is
  shared.
\<close>

definition copy_attr :: "world \<Rightarrow> ref \<Rightarrow> world \<times> ref" where
  "copy_attr w r =
     (case lookup w r of
        None \<Rightarrow> (w, r)
      | Some (QuerySetObj qs) \<Rightarrow> (w, r)
      | Some (Dict d) \<Rightarrow> (w, r)
      | Some (FilterDictObj d) \<Rightarrow>
          (case lookup w d of
             None \<Rightarrow> (w, r)
           | Some c \<Rightarrow> (let (w1, d1) = alloc w c in alloc w1 (FilterDictObj d1)))
      | Some c \<Rightarrow> alloc w c)"

text \<open>
  \<open>SuspendersQuerySet.copy\<close>. The new instance comes from \<open>__init__\<close>, so its
  \<open>_result_set\<close> is None; the empty lists \<open>__init__\<close> gave it are replaced at once and
  are not allocated here. The attributes are copied in the order of the source.
\<close>

definition copy :: "world \<Rightarrow> ref \<Rightarrow> world \<times> (error + ref)" where
  "copy w self =
     (case get_query_set w self of
        None \<Rightarrow> (w, Inl no_attr)
      | Some qs \<Rightarrow>
          (let (w1, s) = copy_attr w (qs_sort qs);
               (w2, m) = copy_attr w1 (qs_must_search_set qs);
               (w3, opt) = copy_attr w2 (qs_optional_search_set qs);
               (w4, f) = copy_attr w3 (qs_filters qs);
               (w5, a) = copy_attr w4 (qs_aggs_fields qs);
               (w6, n) = copy_attr w5 (qs_negative_boost_queries qs);
               (w7, q) = alloc w6 (QuerySetObj
                 (qs\<lparr> qs_sort := s, qs_must_search_set := m, qs_optional_search_set := opt,
                      qs_filters := f, qs_aggs_fields := a, qs_negative_boost_queries := n,
                      qs_result_set := None \<rparr>))
           in (w7, Inr q)))"

text \<open>The decorator \<open>clone\<close>: the method body runs on a copy of \<open>self\<close>.\<close>

definition clone ::
  "(world \<Rightarrow> ref \<Rightarrow> world \<times> (error + ref)) \<Rightarrow> world \<Rightarrow> ref \<Rightarrow> world \<times> (error + ref)" where
  "clone function w self =
     (case copy w self of
        (w1, Inl e) \<Rightarrow> (w1, Inl e)
      | (w1, Inr self1) \<Rightarrow> function w1 self1)"

subsection \<open>Compilation\<close>

definition positive_filters :: "(string \<times> (string \<times> es_filter)) list \<Rightarrow> es_filter list" where
  "positive_filters filters = map snd (filter (\<lambda>tv. fst tv = ''+'') (map snd filters))"

definition negative_filters :: "(string \<times> (string \<times> es_filter)) list \<Rightarrow> es_filter list" where
  "negative_filters filters = map snd (filter (\<lambda>tv. fst tv = ''-'') (map snd filters))"

text \<open>The filter-context bool both branches of \<open>_serialized_query\<close> build.\<close>

definition filter_bool :: "(string \<times> (string \<times> es_filter)) list \<Rightarrow> error + query" where
  "filter_bool filters =
     BoolQuery_init (Some (map FilterQ (positive_filters filters))) None
       (Some (map FilterQ (negative_filters filters))) None None True"

text \<open>
  \<open>_serialized_query\<close> on the values of the attributes it reads: the must and optional
  queries, the filters, the negative boost queries and \<open>minimum_should_match\<close>.
\<close>

definition serialized_query ::
  "(es_filter \<Rightarrow> json) \<Rightarrow> query list \<Rightarrow> query list \<Rightarrow> (string \<times> (string \<times> es_filter)) list \<Rightarrow>
   query list \<Rightarrow> int \<Rightarrow> error + json" where
  "serialized_query fd must_search_set optional_search_set filters negative_boost_queries msm =
     (let has_search_context = (must_search_set \<noteq> [] \<or> optional_search_set \<noteq> []);
          has_filter_context = (filters \<noteq> [])
      in bindE
           (if has_search_context then
              bindE (BoolQuery_init (Some must_search_set) (Some optional_search_set) (Some [])
                       None (if optional_search_set \<noteq> [] then Some msm else None) False)
                (\<lambda>res.
                   if has_filter_context then
                     bindE (filter_bool filters) (\<lambda>f.
                       BoolQuery_init (Some [res]) None None (Some f) None False)
                   else Inr res)
            else if has_filter_context then
              bindE (filter_bool filters) (\<lambda>f. ConstantScoreQuery_init (Some f))
            else Inr MatchAllQuery)
           (\<lambda>res.
              to_dict fd
                (if negative_boost_queries \<noteq> []
                 then NegativeBoost (IList negative_boost_queries) (Some (IObj res))
                        (JFloat (1 / 2))
                 else res)))"

text \<open>\<open>_serialized_aggregations\<close>: each aggregation updates the result dict.\<close>

fun serialized_aggregations ::
  "(string \<times> json) list \<Rightarrow> terms_aggregation list \<Rightarrow> error + (string \<times> json) list" where
  "serialized_aggregations res [] = Inr res"
| "serialized_aggregations res (agg # aggs) =
     (case TermsFilter_serialize agg of
        Inl e \<Rightarrow> Inl e
      | Inr (k, v) \<Rightarrow> serialized_aggregations (AList.update k v res) aggs)"

text \<open>\<open>SuspendersQuerySet.to_dict\<close>.\<close>

definition qs_to_dict :: "(es_filter \<Rightarrow> json) \<Rightarrow> world \<Rightarrow> ref \<Rightarrow> error + json" where
  "qs_to_dict fd w self =
     (case get_query_set w self of
        None \<Rightarrow> Inl no_attr
      | Some qs \<Rightarrow>
          if qs_is_none_set qs then Inr (JObj [(''is_none'', JBool True)])
          else
            (case (get_sort w (qs_sort qs), get_queries w (qs_must_search_set qs),
                   get_queries w (qs_optional_search_set qs), get_filters w (qs_filters qs),
                   get_queries w (qs_negative_boost_queries qs),
                   get_aggs w (qs_aggs_fields qs)) of
               (Some sort_list, Some must_set, Some optional_set, Some filters, Some negative,
                Some aggs) \<Rightarrow>
                 bindE (serialized_query fd must_set optional_set filters negative
                          (qs_minimum_should_match qs)) (\<lambda>query.
                 bindE (if aggs \<noteq> []
                        then bindE (serialized_aggregations [] aggs) (\<lambda>sa.
                               Inr [(''aggregations'',
                                     if qs_aggregations_use_sampler qs
                                     then JObj [(''__sampler__'',
                                            JObj [(''sampler'', JObj [(''shard_size'', JInt 10)]),
                                                  (''aggs'', JObj sa)])]
                                     else JObj sa)])
                        else Inr []) (\<lambda>agg_entry.
                   Inr (JObj (
                     [(''sort'', if sort_list \<noteq> []
                                 then JList (map (\<lambda>kv. JObj [(fst kv, JStr (snd kv))]) sort_list)
                                 else JList [JStr ''_score'', JStr ''id'']),
                      (''size'', JInt (qs_page_size qs)),
                      (''query'', query),
                      (''track_total_hits'', JBool (qs_track_total_hits qs))]
                     @ entry (qs_min_score qs \<noteq> JNull) ''min_score'' (qs_min_score qs)
                     @ entry (qs_from qs \<noteq> 0) ''from'' (JInt (qs_from qs))
                     @ agg_entry))))
             | _ \<Rightarrow> Inl no_attr))"

subsection \<open>FilterDict\<close>

text \<open>
  \<open>FilterDict.__check\<close>. \<open>merge\<close> is the \<open>merge\<close> method of the filter classes
  (parameter: a new filter, or None). \<open>debug\<close> is \<open>settings.DEBUG\<close>. The message
  starts as the source's does; the rendered dicts that follow in it are left out.
\<close>

definition overridden_message :: "string \<Rightarrow> string" where
  "overridden_message key =
     ''['' @ key @ ''] already set within query set and is being overriden!''"

definition FilterDict_check ::
  "bool \<Rightarrow> (es_filter \<Rightarrow> es_filter \<Rightarrow> es_filter option) \<Rightarrow> world \<Rightarrow>
   (string \<times> (string \<times> es_filter)) list \<Rightarrow> string \<Rightarrow> es_filter \<Rightarrow> world \<times> (error + es_filter)" where
  "FilterDict_check debug merge w filters key v =
     (case map_of filters key of
        None \<Rightarrow> (w, Inr v)
      | Some (prev_key_type, prev) \<Rightarrow>
          (case merge prev v of
             Some next_value \<Rightarrow> (w, Inr next_value)
           | None \<Rightarrow>
               if debug then (w, Inl (ValueError (JStr (overridden_message key))))
               else (w\<lparr>w_log := w_log w @ [overridden_message key]\<rparr>, Inr v)))"

text \<open>
  \<open>add_positive\<close> (\<open>polarity = ''+''\<close>) and \<open>add_negative\<close> (\<open>polarity = ''-''\<close>) on the
  \<open>FilterDict\<close> at \<open>fdict\<close>; the two methods differ in the polarity only.
\<close>

definition FilterDict_add ::
  "string \<Rightarrow> bool \<Rightarrow> (es_filter \<Rightarrow> es_filter \<Rightarrow> es_filter option) \<Rightarrow> world \<Rightarrow> ref \<Rightarrow> string \<Rightarrow>
   es_filter \<Rightarrow> world \<times> (error + unit)" where
  "FilterDict_add polarity debug merge w fdict key v =
     (case get_filter_dict w fdict of
        None \<Rightarrow> (w, Inl no_attr)
      | Some d \<Rightarrow>
          (case get_dict w d of
             None \<Rightarrow> (w, Inl no_attr)
           | Some filters \<Rightarrow>
               (let key1 = (if is_multi v then polarity @ key else key) in
                case FilterDict_check debug merge w filters key1 v of
                  (w1, Inl e) \<Rightarrow> (w1, Inl e)
                | (w1, Inr next_value) \<Rightarrow>
                    (store w1 d (Dict (AList.update key1 (polarity, next_value) filters)),
                     Inr ()))))"

definition add_positive ::
  "bool \<Rightarrow> (es_filter \<Rightarrow> es_filter \<Rightarrow> es_filter option) \<Rightarrow> world \<Rightarrow> ref \<Rightarrow> string \<Rightarrow> es_filter \<Rightarrow>
   world \<times> (error + unit)" where
  "add_positive = FilterDict_add ''+''"

definition add_negative ::
  "bool \<Rightarrow> (es_filter \<Rightarrow> es_filter \<Rightarrow> es_filter option) \<Rightarrow> world \<Rightarrow> ref \<Rightarrow> string \<Rightarrow> es_filter \<Rightarrow>
   world \<times> (error + unit)" where
  "add_negative = FilterDict_add ''-''"

subsection \<open>The chained methods\<close>

text \<open>A positional argument of \<open>filter\<close>, \<open>exclude\<close> and \<open>suppress\<close>.\<close>

datatype pyarg = AFilter es_filter | AOther json

text \<open>
  \<open>_make_filter_list\<close>: the keyword arguments first, each through \<open>parse_filter\<close> (of
  \<open>filters.py\<close>, the parameter \<open>parse_filter\<close>), then the positional ones, each of
  which must be a filter.
\<close>

fun ensure_filters :: "pyarg list \<Rightarrow> error + es_filter list" where
  "ensure_filters [] = Inr []"
| "ensure_filters (AFilter f # rest) =
     (case ensure_filters rest of Inl e \<Rightarrow> Inl e | Inr fs \<Rightarrow> Inr (f # fs))"
| "ensure_filters (AOther v # rest) = Inl (AttributeError (JStr ''is not a filter class''))"

definition make_filter_list ::
  "(string \<Rightarrow> json \<Rightarrow> error + es_filter) \<Rightarrow> pyarg list \<Rightarrow> (string \<times> json) list \<Rightarrow>
   error + es_filter list" where
  "make_filter_list parse_filter args kwargs =
     bindE (sequence_sum (map (\<lambda>kv. parse_filter (fst kv) (snd kv)) kwargs)) (\<lambda>parsed.
     bindE (ensure_filters args) (\<lambda>given. Inr (parsed @ given)))"

fun add_filters ::
  "string \<Rightarrow> bool \<Rightarrow> (es_filter \<Rightarrow> es_filter \<Rightarrow> es_filter option) \<Rightarrow> world \<Rightarrow> ref \<Rightarrow> es_filter list \<Rightarrow>
   world \<times> (error + unit)" where
  "add_filters polarity debug merge w fdict [] = (w, Inr ())"
| "add_filters polarity debug merge w fdict (f # fs) =
     (case FilterDict_add polarity debug merge w fdict (fname f) f of
        (w1, Inl e) \<Rightarrow> (w1, Inl e)
      | (w1, Inr _) \<Rightarrow> add_filters polarity debug merge w1 fdict fs)"

text \<open>The bodies of \<open>filter\<close> and \<open>exclude\<close>, which run on the copy.\<close>

definition filter_body ::
  "string \<Rightarrow> bool \<Rightarrow> (es_filter \<Rightarrow> es_filter \<Rightarrow> es_filter option) \<Rightarrow> (string \<Rightarrow> json \<Rightarrow> error + es_filter) \<Rightarrow>
   pyarg list \<Rightarrow> (string \<times> json) list \<Rightarrow> world \<Rightarrow> ref \<Rightarrow> world \<times> (error + ref)" where
  "filter_body polarity debug merge parse_filter args kwargs w self =
     (case get_query_set w self of
        None \<Rightarrow> (w, Inl no_attr)
      | Some qs \<Rightarrow>
          (case make_filter_list parse_filter args kwargs of
             Inl e \<Rightarrow> (w, Inl e)
           | Inr fs \<Rightarrow>
               (case add_filters polarity debug merge w (qs_filters qs) fs of
                  (w1, Inl e) \<Rightarrow> (w1, Inl e)
                | (w1, Inr _) \<Rightarrow> (w1, Inr self))))"

definition qs_filter ::
  "bool \<Rightarrow> (es_filter \<Rightarrow> es_filter \<Rightarrow> es_filter option) \<Rightarrow> (string \<Rightarrow> json \<Rightarrow> error + es_filter) \<Rightarrow>
   pyarg list \<Rightarrow> (string \<times> json) list \<Rightarrow> world \<Rightarrow> ref \<Rightarrow> world \<times> (error + ref)" where
  "qs_filter debug merge parse_filter args kwargs =
     clone (filter_body ''+'' debug merge parse_filter args kwargs)"

definition exclude ::
  "bool \<Rightarrow> (es_filter \<Rightarrow> es_filter \<Rightarrow> es_filter option) \<Rightarrow> (string \<Rightarrow> json \<Rightarrow> error + es_filter) \<Rightarrow>
   pyarg list \<Rightarrow> (string \<times> json) list \<Rightarrow> world \<Rightarrow> ref \<Rightarrow> world \<times> (error + ref)" where
  "exclude debug merge parse_filter args kwargs =
     clone (filter_body ''-'' debug merge parse_filter args kwargs)"

text \<open>Appending to the list at a reference (\<open>list.append\<close>).\<close>

definition append_queries :: "world \<Rightarrow> ref \<Rightarrow> query list \<Rightarrow> error + world" where
  "append_queries w r new =
     (case get_queries w r of
        None \<Rightarrow> Inl no_attr
      | Some qs \<Rightarrow> Inr (store w r (QueryList (qs @ new))))"

text \<open>Assigning attributes of the instance at \<open>self\<close>.\<close>

definition set_attrs :: "(query_set \<Rightarrow> query_set) \<Rightarrow> world \<Rightarrow> ref \<Rightarrow> world \<times> (error + ref)" where
  "set_attrs f w self =
     (case get_query_set w self of
        None \<Rightarrow> (w, Inl no_attr)
      | Some qs \<Rightarrow> (store w self (QuerySetObj (f qs)), Inr self))"

definition suppress ::
  "(string \<Rightarrow> json \<Rightarrow> error + es_filter) \<Rightarrow> pyarg list \<Rightarrow> (string \<times> json) list \<Rightarrow>
   world \<Rightarrow> ref \<Rightarrow> world \<times> (error + ref)" where
  "suppress parse_filter args kwargs =
     clone (\<lambda>w self.
       case get_query_set w self of
         None \<Rightarrow> (w, Inl no_attr)
       | Some qs \<Rightarrow>
           (case make_filter_list parse_filter args kwargs of
              Inl e \<Rightarrow> (w, Inl e)
            | Inr fs \<Rightarrow>
                (case append_queries w (qs_negative_boost_queries qs) (map FilterQ fs) of
                   Inl e \<Rightarrow> (w, Inl e)
                 | Inr w1 \<Rightarrow> (w1, Inr self))))"

definition min_score_m :: "json \<Rightarrow> world \<Rightarrow> ref \<Rightarrow> world \<times> (error + ref)" where
  "min_score_m score = clone (set_attrs (\<lambda>qs. qs\<lparr>qs_min_score := score\<rparr>))"

text \<open>
  \<open>MatchQuery(field=key, value=value, **options)\<close>: the only further keywords the
  constructor takes are \<open>search_type\<close> and \<open>max_expansions\<close>.
\<close>

definition MatchQuery_init :: "string \<Rightarrow> json \<Rightarrow> (string \<times> json) list \<Rightarrow> error + query" where
  "MatchQuery_init field v options =
     (if \<exists>k \<in> fst ` set options. k \<notin> {''search_type'', ''max_expansions''}
      then Inl (TypeError (JStr ''unexpected keyword argument''))
      else Inr (MatchQuery field v
             (case map_of options ''search_type'' of None \<Rightarrow> JStr ''boolean'' | Some t \<Rightarrow> t)
             (case map_of options ''max_expansions'' of None \<Rightarrow> JInt 50 | Some m \<Rightarrow> m)))"

text \<open>
  The values \<open>match_text\<close> loops over: \<open>is_string_or_not_iterable\<close> wraps a string and
  anything that is not iterable in a list; a list or a dict is iterated.
\<close>

fun match_values :: "json \<Rightarrow> json list" where
  "match_values (JList xs) = xs"
| "match_values (JObj kvs) = map (\<lambda>kv. JStr (fst kv)) kvs"
| "match_values v = [v]"

text \<open>
  The loop of \<open>match_text\<close>: a query is appended as soon as it is built, so the ones
  before a failing one stay on the copy.
\<close>

fun match_loop ::
  "world \<Rightarrow> ref \<Rightarrow> string \<Rightarrow> (string \<times> json) list \<Rightarrow> json list \<Rightarrow> world \<times> (error + unit)" where
  "match_loop w r key options [] = (w, Inr ())"
| "match_loop w r key options (v # vs) =
     (case MatchQuery_init key v options of
        Inl e \<Rightarrow> (w, Inl e)
      | Inr q \<Rightarrow>
          (case append_queries w r [q] of
             Inl e \<Rightarrow> (w, Inl e)
           | Inr w1 \<Rightarrow> match_loop w1 r key options vs))"

text \<open>\<open>match_text\<close>; \<open>parse_kwargs\<close> (of \<open>filters.py\<close>) is a parameter.\<close>

definition match_text ::
  "((string \<times> json) list \<Rightarrow> error + string \<times> json \<times> (string \<times> json) list) \<Rightarrow>
   (string \<times> json) list \<Rightarrow> world \<Rightarrow> ref \<Rightarrow> world \<times> (error + ref)" where
  "match_text parse_kwargs kwargs =
     clone (\<lambda>w self.
       case get_query_set w self of
         None \<Rightarrow> (w, Inl no_attr)
       | Some qs \<Rightarrow>
           (case parse_kwargs kwargs of
              Inl e \<Rightarrow> (w, Inl e)
            | Inr (key, vals, options) \<Rightarrow>
                (case match_loop w (qs_must_search_set qs) key options (match_values vals) of
                   (w1, Inl e) \<Rightarrow> (w1, Inl e)
                 | (w1, Inr _) \<Rightarrow> (w1, Inr self))))"

definition add_optional_query :: "query \<Rightarrow> world \<Rightarrow> ref \<Rightarrow> world \<times> (error + ref)" where
  "add_optional_query q =
     clone (\<lambda>w self.
       case get_query_set w self of
         None \<Rightarrow> (w, Inl no_attr)
       | Some qs \<Rightarrow>
           (case append_queries w (qs_optional_search_set qs) [q] of
              Inl e \<Rightarrow> (w, Inl e)
            | Inr w1 \<Rightarrow> (w1, Inr self)))"

text \<open>The loop of \<open>sorted_by\<close> over the orderings.\<close>

fun orderings_list :: "string list \<Rightarrow> error + (string \<times> string) list" where
  "orderings_list [] = Inr []"
| "orderings_list (ordr # rest) =
     (if ordr \<noteq> ''_score'' \<and> take 1 ordr = ''_''
      then Inl (ValueError (JStr (''Invalid ordr '' @ ordr)))
      else
        (case orderings_list rest of
           Inl e \<Rightarrow> Inl e
         | Inr result \<Rightarrow>
             Inr ((if ordr = ''_score'' then (ordr, ''desc'')
                   else if take 1 ordr = ''-'' then (drop 1 ordr, ''desc'')
                   else if take 1 ordr = ''+'' then (drop 1 ordr, ''asc'')
                   else (ordr, ''asc'')) # result)))"

definition sorted_by :: "string list \<Rightarrow> world \<Rightarrow> ref \<Rightarrow> world \<times> (error + ref)" where
  "sorted_by orderings =
     clone (\<lambda>w self.
       case orderings_list orderings of
         Inl e \<Rightarrow> (w, Inl e)
       | Inr result \<Rightarrow>
           (let (w1, r) = alloc w (SortList result)
            in set_attrs (\<lambda>qs. qs\<lparr>qs_sort := r\<rparr>) w1 self))"

text \<open>
  \<open>aggregation\<close>: \<open>name\<close> is dropped from the keywords, a term that is not a string
  is refused, and the new aggregation is appended.
\<close>

definition aggregation ::
  "json \<Rightarrow> json \<Rightarrow> json \<Rightarrow> json \<Rightarrow> json \<Rightarrow> json \<Rightarrow> top_hits option \<Rightarrow> (string \<times> json) list \<Rightarrow>
   world \<Rightarrow> ref \<Rightarrow> world \<times> (error + ref)" where
  "aggregation term_arg size_arg min_doc_count order exclude_arg include with_top_hits kwargs =
     clone (\<lambda>w self.
       case get_query_set w self of
         None \<Rightarrow> (w, Inl no_attr)
       | Some qs \<Rightarrow>
           (case term_arg of
              JStr t \<Rightarrow>
                (case TermsFilter_init t t size_arg order exclude_arg include min_doc_count
                        with_top_hits (filter (\<lambda>kv. fst kv \<noteq> ''name'') kwargs) of
                   Inl e \<Rightarrow> (w, Inl e)
                 | Inr facet \<Rightarrow>
                     (case get_aggs w (qs_aggs_fields qs) of
                        None \<Rightarrow> (w, Inl no_attr)
                      | Some aggs \<Rightarrow>
                          (store w (qs_aggs_fields qs) (AggList (aggs @ [facet])), Inr self)))
            | _ \<Rightarrow> (w, Inl (NotImplementedError
                       (JStr ''Aggregation does not understand type of term'')))))"

definition none :: "world \<Rightarrow> ref \<Rightarrow> world \<times> (error + ref)" where
  "none = clone (set_attrs (\<lambda>qs. qs\<lparr>qs_is_none_set := True\<rparr>))"

definition no_pages :: "world \<Rightarrow> ref \<Rightarrow> world \<times> (error + ref)" where
  "no_pages =
     clone (set_attrs (\<lambda>qs. qs\<lparr>qs_from := 0, qs_page_size := 0, qs_track_total_hits := False\<rparr>))"

definition enable_hit_counter :: "world \<Rightarrow> ref \<Rightarrow> world \<times> (error + ref)" where
  "enable_hit_counter = clone (set_attrs (\<lambda>qs. qs\<lparr>qs_track_total_hits := True\<rparr>))"

definition disable_hit_counter :: "world \<Rightarrow> ref \<Rightarrow> world \<times> (error + ref)" where
  "disable_hit_counter = clone (set_attrs (\<lambda>qs. qs\<lparr>qs_track_total_hits := False\<rparr>))"

text \<open>
  \<open>paginate\<close> and \<open>slice\<close> take integers; the declared default of each argument is
  None, on which \<open>int\<close> raises.
\<close>

definition paginate :: "int option \<Rightarrow> int option \<Rightarrow> world \<Rightarrow> ref \<Rightarrow> world \<times> (error + ref)" where
  "paginate page page_size =
     clone (\<lambda>w self.
       case (page, page_size) of
         (Some p, Some ps) \<Rightarrow>
           if p \<le> 0 then (w, Inl (ValueError (JStr ''Page must be > 0'')))
           else if ps \<le> 0 then (w, Inl (ValueError (JStr ''Page_size must an integer > 0'')))
           else set_attrs (\<lambda>qs. qs\<lparr>qs_from := (p - 1) * ps, qs_page_size := ps\<rparr>) w self
       | _ \<Rightarrow> (w, Inl (TypeError (JStr ''int''))))"

definition slice :: "int option \<Rightarrow> int option \<Rightarrow> world \<Rightarrow> ref \<Rightarrow> world \<times> (error + ref)" where
  "slice start end_arg =
     clone (\<lambda>w self.
       case (start, end_arg) of
         (Some s, Some e) \<Rightarrow>
           if 0 > s then
             (w, Inl (ValueError (JStr ''Start must be an integer greater than 0'')))
           else if s > e then
             (w, Inl (ValueError (JStr ''End must be an integer greater than start'')))
           else if 1 > e - s then
             (w, Inl (ValueError (JStr ''Derived page size must be at least 1'')))
           else set_attrs (\<lambda>qs. qs\<lparr>qs_from := s, qs_page_size := e - s\<rparr>) w self
       | _ \<Rightarrow> (w, Inl (TypeError (JStr ''int''))))"

definition all_m :: "world \<Rightarrow> ref \<Rightarrow> world \<times> (error + ref)" where
  "all_m = clone (\<lambda>w self. (w, Inr self))"

text \<open>A call of one of the chained methods, with its arguments.\<close>

datatype method_call =
    CallFilter "pyarg list" "(string \<times> json) list"
  | CallExclude "pyarg list" "(string \<times> json) list"
  | CallSuppress "pyarg list" "(string \<times> json) list"
  | CallMatchText "(string \<times> json) list"
  | CallAddOptionalQuery query
  | CallSortedBy "string list"
  | CallAggregation json json json json json json "top_hits option" "(string \<times> json) list"
  | CallPaginate "int option" "int option"
  | CallSlice "int option" "int option"
  | CallMinScore json
  | CallNone
  | CallNoPages
  | CallEnableHitCounter
  | CallDisableHitCounter
  | CallAll

text \<open>
  What the query set takes from its surroundings: \<open>settings.DEBUG\<close>, and the functions
  of \<open>filters.py\<close> (the merge of two filters, \<open>parse_filter\<close>, \<open>parse_kwargs\<close>).
\<close>

record env =
  env_debug :: bool
  env_merge :: "es_filter \<Rightarrow> es_filter \<Rightarrow> es_filter option"
  env_parse_filter :: "string \<Rightarrow> json \<Rightarrow> error + es_filter"
  env_parse_kwargs :: "(string \<times> json) list \<Rightarrow> error + string \<times> json \<times> (string \<times> json) list"

fun call_method :: "env \<Rightarrow> method_call \<Rightarrow> world \<Rightarrow> ref \<Rightarrow> world \<times> (error + ref)" where
  "call_method en (CallFilter args kwargs) =
     qs_filter (env_debug en) (env_merge en) (env_parse_filter en) args kwargs"
| "call_method en (CallExclude args kwargs) =
     exclude (env_debug en) (env_merge en) (env_parse_filter en) args kwargs"
| "call_method en (CallSuppress args kwargs) = suppress (env_parse_filter en) args kwargs"
| "call_method en (CallMatchText kwargs) = match_text (env_parse_kwargs en) kwargs"
| "call_method en (CallAddOptionalQuery q) = add_optional_query q"
| "call_method en (CallSortedBy orderings) = sorted_by orderings"
| "call_method en (CallAggregation term_arg sz mdc ordr excl incl th kwargs) =
     aggregation term_arg sz mdc ordr excl incl th kwargs"
| "call_method en (CallPaginate page page_size) = paginate page page_size"
| "call_method en (CallSlice start end_arg) = slice start end_arg"
| "call_method en (CallMinScore score) = min_score_m score"
| "call_method en CallNone = none"
| "call_method en CallNoPages = no_pages"
| "call_method en CallEnableHitCounter = enable_hit_counter"
| "call_method en CallDisableHitCounter = disable_hit_counter"
| "call_method en CallAll = all_m"

subsection \<open>Execution\<close>

text \<open>
  What a call of the connection does: it returns a raw response, fails with an I/O
  error, fails with a transport error (its \<open>info\<close> and \<open>status_code\<close>), or fails otherwise.
\<close>

datatype conn_result =
    Returned json
  | IOFailure string
  | TransportFailure json json
  | OtherFailure error

text \<open>
  The document store answers a request; its answer may depend on the calls made before
  (their number is the last argument).
\<close>

record doc_store =
  ds_search :: "json \<Rightarrow> json \<Rightarrow> json \<Rightarrow> nat \<Rightarrow> conn_result"
  ds_count :: "json \<Rightarrow> json \<Rightarrow> nat \<Rightarrow> conn_result"

text \<open>
  \<open>handle_elastic_search_errors\<close> around the outcome of the call: the body of the
  \<open>with\<close> block runs on a response (\<open>on_response\<close>); when \<open>raise_on_transport_error\<close>
  returns without raising, the context manager swallows the transport error and the
  function returns None.
\<close>

definition handle_elastic_search_errors ::
  "conn_result \<Rightarrow> (json \<Rightarrow> error + 'a) \<Rightarrow> error + 'a option" where
  "handle_elastic_search_errors outcome on_response =
     (case outcome of
        Returned raw \<Rightarrow> bindE (on_response raw) (\<lambda>x. Inr (Some x))
      | IOFailure s \<Rightarrow> Inl (NoServerAvailable s)
      | TransportFailure info status \<Rightarrow>
          bindE (raise_on_transport_error info status) (\<lambda>_. Inr None)
      | OtherFailure e \<Rightarrow> Inl e)"

text \<open>\<open>raw_search\<close> with the callback of the base class, which returns its argument.\<close>

definition raw_search ::
  "doc_store \<Rightarrow> world \<Rightarrow> json \<Rightarrow> json \<Rightarrow> json \<Rightarrow> world \<times> (error + result_set option)" where
  "raw_search ds w body indexes query_params =
     (w\<lparr>w_calls := w_calls w @ [SearchCall body indexes query_params]\<rparr>,
      handle_elastic_search_errors
        (ds_search ds body indexes query_params (length (w_calls w))) ResultSet_init)"

definition raw_count :: "doc_store \<Rightarrow> world \<Rightarrow> json \<Rightarrow> json \<Rightarrow> world \<times> (error + json option)" where
  "raw_count ds w body indexes =
     (w\<lparr>w_calls := w_calls w @ [CountCall body indexes]\<rparr>,
      handle_elastic_search_errors
        (ds_count ds body indexes (length (w_calls w))) (\<lambda>raw. py_getitem raw ''count''))"

definition empty_result_set :: "error + result_set" where
  "empty_result_set =
     ResultSet_init (JObj [(''hits'', JObj [(''hits'', JList []), (''total'', JInt 0),
                                           (''max_score'', JInt 0)]),
                           (''_shards'', JInt 0)])"

text \<open>\<open>SuspendersQuerySet.execute\<close>; the result is what the method returns.\<close>

definition execute ::
  "(es_filter \<Rightarrow> json) \<Rightarrow> doc_store \<Rightarrow> json \<Rightarrow> json \<Rightarrow> world \<Rightarrow> ref \<Rightarrow>
   world \<times> (error + result_set option)" where
  "execute fd ds indexes query_params w self =
     (case get_query_set w self of
        None \<Rightarrow> (w, Inl no_attr)
      | Some qs \<Rightarrow>
          (case qs_result_set qs of
             Some rs \<Rightarrow> (w, Inr (Some rs))
           | None \<Rightarrow>
               if qs_is_none_set qs then (w, bindE empty_result_set (\<lambda>rs. Inr (Some rs)))
               else
                 (case qs_to_dict fd w self of
                    Inl e \<Rightarrow> (w, Inl e)
                  | Inr body \<Rightarrow>
                      (case raw_search ds w body indexes query_params of
                         (w1, Inl e) \<Rightarrow> (w1, Inl e)
                       | (w1, Inr results) \<Rightarrow>
                           (store w1 self (QuerySetObj (qs\<lparr>qs_result_set := results\<rparr>)),
                            Inr results)))))"

text \<open>\<open>SuspendersQuerySet.count\<close>; None is \<open>JNull\<close>.\<close>

definition count_m ::
  "(es_filter \<Rightarrow> json) \<Rightarrow> doc_store \<Rightarrow> json \<Rightarrow> world \<Rightarrow> ref \<Rightarrow> world \<times> (error + json)" where
  "count_m fd ds indexes w self =
     (case get_query_set w self of
        None \<Rightarrow> (w, Inl no_attr)
      | Some qs \<Rightarrow>
          (case qs_result_set qs of
             Some rs \<Rightarrow> (w, Inr (total rs))
           | None \<Rightarrow>
               if qs_is_none_set qs then (w, Inr (JInt 0))
               else
                 (case qs_to_dict fd w self of
                    Inl e \<Rightarrow> (w, Inl e)
                  | Inr body \<Rightarrow>
                      (case bindE (py_getitem body ''query'') (\<lambda>q.
                            bindE (py_in ''from'' body) (\<lambda>has_from.
                              if has_from
                              then bindE (py_getitem body ''from'') (\<lambda>f.
                                     Inr (JObj [(''query'', q), (''from'', f)]))
                              else Inr (JObj [(''query'', q)]))) of
                         Inl e \<Rightarrow> (w, Inl e)
                       | Inr count_body \<Rightarrow>
                           (case raw_count ds w count_body indexes of
                              (w1, Inl e) \<Rightarrow> (w1, Inl e)
                            | (w1, Inr None) \<Rightarrow> (w1, Inr JNull)
                            | (w1, Inr (Some n)) \<Rightarrow> (w1, Inr n))))))"

subsection \<open>Merging filters\<close>

text \<open>
  Modelled from the spec: the \<open>merge\<close> method of the filter classes of \<open>filters.py\<close>,
  which is not among the sources. Two filters of the same field and kind merge into a
  new filter of that field and kind whose values are the union of both; filters of
  different field or kind do not merge.
\<close>

definition merge_spec :: "es_filter \<Rightarrow> es_filter \<Rightarrow> es_filter option" where
  "merge_spec f g =
     (if fname f = fname g \<and> fkind f = fkind g
      then Some (Filter (fname f) (fkind f)
                   (fvalues f @ filter (\<lambda>v. v \<notin> set (fvalues f)) (fvalues g)) (is_multi f))
      else None)"

subsection \<open>Well-formed instances\<close>

text \<open>
  The instance at \<open>self\<close> is a query set whose attributes hold objects of their
  classes, as every instance made by \<open>__init__\<close> and the chained methods does.
\<close>

definition wf_qs :: "world \<Rightarrow> ref \<Rightarrow> bool" where
  "wf_qs w self =
     (case get_query_set w self of
        None \<Rightarrow> False
      | Some qs \<Rightarrow>
          get_sort w (qs_sort qs) \<noteq> None \<and>
          get_queries w (qs_must_search_set qs) \<noteq> None \<and>
          get_queries w (qs_optional_search_set qs) \<noteq> None \<and>
          get_filters w (qs_filters qs) \<noteq> None \<and>
          get_queries w (qs_negative_boost_queries qs) \<noteq> None \<and>
          get_aggs w (qs_aggs_fields qs) \<noteq> None)"

subsection \<open>Frames\<close>

text \<open>\<open>w'\<close> keeps every object of \<open>w\<close> as it is and may hold new ones.\<close>

definition extends :: "world \<Rightarrow> world \<Rightarrow> bool" where
  "extends w w' =
     (length (w_heap w) \<le> length (w_heap w') \<and> take (length (w_heap w)) (w_heap w') = w_heap w)"

text \<open>
  The instance at \<open>self\<close> in \<open>w'\<close> and all the objects its attributes refer to were
  allocated after \<open>w\<close>.
\<close>

definition owned :: "world \<Rightarrow> world \<Rightarrow> ref \<Rightarrow> bool" where
  "owned w w' self =
     (case get_query_set w' self of
        None \<Rightarrow> False
      | Some qs \<Rightarrow>
          wf_qs w' self \<and>
          length (w_heap w) \<le> self \<and>
          length (w_heap w) \<le> qs_sort qs \<and>
          length (w_heap w) \<le> qs_must_search_set qs \<and>
          length (w_heap w) \<le> qs_optional_search_set qs \<and>
          length (w_heap w) \<le> qs_filters qs \<and>
          length (w_heap w) \<le> qs_negative_boost_queries qs \<and>
          length (w_heap w) \<le> qs_aggs_fields qs \<and>
          (case get_filter_dict w' (qs_filters qs) of
             None \<Rightarrow> False
           | Some d \<Rightarrow> length (w_heap w) \<le> d))"

text \<open>The references a query set instance holds.\<close>

definition qs_refs :: "query_set \<Rightarrow> ref list" where
  "qs_refs qs =
     [qs_sort qs, qs_must_search_set qs, qs_optional_search_set qs, qs_filters qs,
      qs_negative_boost_queries qs, qs_aggs_fields qs]"

text \<open>
  A cell may be overwritten by a cell of the same class that refers to the same objects.
\<close>

fun compatible :: "cell \<Rightarrow> cell \<Rightarrow> bool" where
  "compatible (QueryList _) (QueryList _) = True"
| "compatible (SortList _) (SortList _) = True"
| "compatible (AggList _) (AggList _) = True"
| "compatible (Dict _) (Dict _) = True"
| "compatible (FilterDictObj d) (FilterDictObj d') = (d = d')"
| "compatible (QuerySetObj qs) (QuerySetObj qs') = (qs_refs qs = qs_refs qs')"
| "compatible _ _ = False"

text \<open>
  Calls whose arguments pass every check of the method, whatever the state: the
  methods that take no argument, \<open>min_score\<close>, \<open>add_optional_query\<close>, \<open>sorted_by\<close> without
  a special field other than \<open>_score\<close>, \<open>paginate\<close> with a positive page and page size,
  and \<open>slice\<close> with \<open>0 \<le> start < end\<close>.
\<close>

fun accepted :: "method_call \<Rightarrow> bool" where
  "accepted (CallAddOptionalQuery q) = True"
| "accepted (CallSortedBy orderings) = (\<not> isl (orderings_list orderings))"
| "accepted (CallPaginate (Some p) (Some ps)) = (0 < p \<and> 0 < ps)"
| "accepted (CallSlice (Some s) (Some e)) = (0 \<le> s \<and> s < e)"
| "accepted (CallMinScore score) = True"
| "accepted CallNone = True"
| "accepted CallNoPages = True"
| "accepted CallEnableHitCounter = True"
| "accepted CallDisableHitCounter = True"
| "accepted CallAll = True"
| "accepted _ = False"

text \<open>
  Every entry of a \<open>FilterDict\<close> carries the polarity \<open>+\<close> or \<open>-\<close>: \<open>add_positive\<close>
  and \<open>add_negative\<close> are the only methods that store one.
\<close>

definition polarities_ok :: "(string \<times> (string \<times> es_filter)) list \<Rightarrow> bool" where
  "polarities_ok filters =
     list_all (\<lambda>kv. fst (snd kv) = ''+'' \<or> fst (snd kv) = ''-'') filters"

text \<open>
  The instance at \<open>self\<close> is a none-set that has no cached result: the state of the
  instance \<open>none()\<close> returns and of every instance chained from it.
\<close>

definition none_set :: "world \<Rightarrow> ref \<Rightarrow> bool" where
  "none_set w self =
     (case get_query_set w self of
        None \<Rightarrow> False
      | Some qs \<Rightarrow> qs_is_none_set qs \<and> qs_result_set qs = None)"

text \<open>
  A chain of calls \<open>q.m1(...).m2(...)\<close>: each method is called on the instance the one
  before returned; the first exception ends the chain.
\<close>

fun call_chain :: "env \<Rightarrow> method_call list \<Rightarrow> world \<Rightarrow> ref \<Rightarrow> world \<times> (error + ref)" where
  "call_chain en [] w self = (w, Inr self)"
| "call_chain en (c # cs) w self =
     (case call_method en c w self of
        (w1, Inl e) \<Rightarrow> (w1, Inl e)
      | (w1, Inr self1) \<Rightarrow> call_chain en cs w1 self1)"

subsection \<open>Example values\<close>

text \<open>
  Concrete surroundings for the examples below: an empty world, a filter serialisation,
  a \<open>parse_filter\<close> that reads \<open>field__in\<close>, and a document store that answers every
  search with one hit and every count with 3.
\<close>

definition w_empty :: world where
  "w_empty = \<lparr>w_heap = [], w_log = [], w_calls = []\<rparr>"

definition fd_example :: "es_filter \<Rightarrow> json" where
  "fd_example f = JObj [(fkind f, JObj [(fname f, JList (fvalues f))])]"

definition env_example :: env where
  "env_example =
     \<lparr> env_debug = False, env_merge = merge_spec,
       env_parse_filter = (\<lambda>k v.
          if k = ''field__in''
          then Inr (Filter ''field'' ''in'' (case v of JList xs \<Rightarrow> xs | _ \<Rightarrow> [v]) True)
          else Inl (ValueError (JStr k))),
       env_parse_kwargs = (\<lambda>kwargs.
          case kwargs of [(k, v)] \<Rightarrow> Inr (k, v, []) | _ \<Rightarrow> Inl (ValueError JNull)) \<rparr>"

definition ds_example :: doc_store where
  "ds_example =
     \<lparr> ds_search = (\<lambda>body indexes query_params n.
          Returned (JObj [(''hits'', JObj [(''hits'', JList [JObj [(''_id'', JStr ''1'')]]),
                                          (''total'', JInt 1), (''max_score'', JInt 1)]),
                          (''_shards'', JObj [])])),
       ds_count = (\<lambda>body indexes n. Returned (JObj [(''count'', JInt 3)])) \<rparr>"

text \<open>A fresh query set: the instance is at reference 7 of \<open>w_fresh\<close>.\<close>

definition w_fresh :: world where
  "w_fresh = fst (QuerySet_init 0 w_empty)"

section \<open>Verified properties\<close>

subsection \<open>Boolean query validation\<close>

text \<open>
  Claim C4, as the code has it. \<open>BoolQuery.__init__\<close> raises exactly when (a) none of
  must, should and must-not holds a clause, or (b) must-not holds a clause while must and
  should hold none and \<open>acts_as_filter\<close> is false, or (c) \<open>minimum_should_match\<close> is a
  non-zero integer and should holds no clause. In every other case it returns the query.
\<close>

theorem BoolQuery_init_fails_iff:
  "isl (BoolQuery_init must maybe must_not filt msm acts_as_filter) \<longleftrightarrow>
     (clauses must = [] \<and> clauses maybe = [] \<and> clauses must_not = [])
   \<or> (clauses must_not \<noteq> [] \<and> clauses must = [] \<and> clauses maybe = [] \<and> \<not> acts_as_filter)
   \<or> ((\<exists>n. msm = Some n \<and> n \<noteq> 0) \<and> clauses maybe = [])"
  by (cases msm) (auto simp: BoolQuery_init_def)

theorem BoolQuery_init_fails_iff_witness:
  "isl (BoolQuery_init None None (Some [MatchAllQuery]) None None False)
   \<and> \<not> isl (BoolQuery_init None None (Some [MatchAllQuery]) None None True)
   \<and> isl (BoolQuery_init (Some [MatchAllQuery]) None None None (Some 1) False)
   \<and> isl (BoolQuery_init None (Some []) None None None True)"
  using BoolQuery_init_fails_iff [of None None "Some [MatchAllQuery]" None None False]
        BoolQuery_init_fails_iff [of None None "Some [MatchAllQuery]" None None True]
        BoolQuery_init_fails_iff [of "Some [MatchAllQuery]" None None None "Some 1" False]
        BoolQuery_init_fails_iff [of None "Some []" None None None True]
  by simp

text \<open>
  Claim C4 as stated fails: \<open>minimum_should_match = 0\<close> is set, no should-clause
  exists, and the construction succeeds (the test of the source is the truth value).
\<close>

theorem BoolQuery_init_zero_msm_counterexample:
  "BoolQuery_init (Some [MatchAllQuery]) None None None (Some 0) False
     = Inr (BoolQuery (Some [MatchAllQuery]) None None None (Some 0))"
  by (simp add: BoolQuery_init_def)

subsection \<open>Decoding a response\<close>

text \<open>
  Claim C7. For a response that holds the hits, the hit list, the shard info and the
  maximal score, and whose aggregations decode, \<open>ResultSet.__init__\<close> succeeds and
  decodes the total in three ways: an integer total \<open>n\<close> gives total \<open>n\<close> and relation
  \<open>eq\<close>; an object total with \<open>value\<close> and \<open>relation\<close> gives these two; an absent total
  gives total None (and assigns no relation).
\<close>

theorem ResultSet_total_decoding:
  assumes "map_of kvs ''hits'' = Some (JObj h)"
      and "map_of h ''hits'' = Some docs"
      and "map_of kvs ''_shards'' = Some sh"
      and "map_of h ''max_score'' = Some ms"
      and "decode_aggregations (JObj kvs) = Inr aggs"
  shows "(map_of h ''total'' = Some (JInt n) \<longrightarrow>
           (\<exists>rs. ResultSet_init (JObj kvs) = Inr rs \<and> total rs = JInt n
                 \<and> total_relation rs = Some (JStr ''eq'')))
       \<and> (map_of h ''total'' = Some (JObj t) \<and> map_of t ''value'' = Some v
            \<and> map_of t ''relation'' = Some r \<longrightarrow>
           (\<exists>rs. ResultSet_init (JObj kvs) = Inr rs \<and> total rs = v
                 \<and> total_relation rs = Some r))
       \<and> (map_of h ''total'' = None \<longrightarrow>
           (\<exists>rs. ResultSet_init (JObj kvs) = Inr rs \<and> total rs = JNull
                 \<and> total_relation rs = None))"
  using assms
  by (simp add: ResultSet_init_def bindE_def decode_total_def)

theorem ResultSet_total_decoding_witness:
  "(\<exists>rs. ResultSet_init (JObj [(''hits'', JObj [(''hits'', JList []), (''total'', JInt 5),
        (''max_score'', JNull)]), (''_shards'', JObj [])]) = Inr rs \<and> total rs = JInt 5
        \<and> total_relation rs = Some (JStr ''eq''))
   \<and> (\<exists>rs. ResultSet_init (JObj [(''hits'', JObj [(''hits'', JList []),
        (''total'', JObj [(''value'', JInt 5), (''relation'', JStr ''gte'')]),
        (''max_score'', JNull)]), (''_shards'', JObj [])]) = Inr rs \<and> total rs = JInt 5
        \<and> total_relation rs = Some (JStr ''gte''))
   \<and> (\<exists>rs. ResultSet_init (JObj [(''hits'', JObj [(''hits'', JList []),
        (''max_score'', JNull)]), (''_shards'', JObj [])]) = Inr rs \<and> total rs = JNull
        \<and> total_relation rs = None)"
proof -
  have agg: "\<And>h. decode_aggregations (JObj [(''hits'', h), (''_shards'', JObj [])]) = Inr []"
    by (simp add: decode_aggregations_def bindE_def)
  show ?thesis
    using ResultSet_total_decoding [of "[(''hits'', JObj [(''hits'', JList []), (''total'', JInt 5),
        (''max_score'', JNull)]), (''_shards'', JObj [])]" _ "JList []" "JObj []" JNull "[]" 5,
        OF _ _ _ _ agg]
      ResultSet_total_decoding [of "[(''hits'', JObj [(''hits'', JList []),
        (''total'', JObj [(''value'', JInt 5), (''relation'', JStr ''gte'')]),
        (''max_score'', JNull)]), (''_shards'', JObj [])]" _ "JList []" "JObj []" JNull "[]"
        _ "[(''value'', JInt 5), (''relation'', JStr ''gte'')]" "JInt 5" "JStr ''gte''",
        OF _ _ _ _ agg]
      ResultSet_total_decoding [of "[(''hits'', JObj [(''hits'', JList []),
        (''max_score'', JNull)]), (''_shards'', JObj [])]" _ "JList []" "JObj []" JNull "[]",
        OF _ _ _ _ agg]
    by simp
qed

text \<open>
  Claim C10. For a result set whose raw hit documents are a list, \<open>bool(r)\<close> is True
  exactly when the list is empty, and \<open>len(r)\<close> is the number of raw hit documents.
\<close>

theorem rs_bool_inverted:
  "rs_documents rs = JList docs \<Longrightarrow>
     rs_bool rs = Inr (length docs = 0) \<and> rs_len rs = Inr (length docs)
     \<and> (rs_bool rs = Inr True \<longleftrightarrow> rs_len rs = Inr 0)"
  by (simp add: rs_bool_def rs_len_def bindE_def)

theorem rs_bool_inverted_witness:
  "rs_bool \<lparr> rs_raw = JNull, rs_hits = JNull, rs_documents = JList [], rs_shards = JNull,
             total = JInt 0, total_relation = None, max_score = JNull,
             aggregations = [] \<rparr> = Inr True
   \<and> rs_bool \<lparr> rs_raw = JNull, rs_hits = JNull, rs_documents = JList [JObj []],
             rs_shards = JNull, total = JInt 1, total_relation = None, max_score = JNull,
             aggregations = [] \<rparr> = Inr False
   \<and> rs_len \<lparr> rs_raw = JNull, rs_hits = JNull, rs_documents = JList [JObj []],
             rs_shards = JNull, total = JInt 1, total_relation = None, max_score = JNull,
             aggregations = [] \<rparr> = Inr 1"
  using rs_bool_inverted [of "\<lparr> rs_raw = JNull, rs_hits = JNull, rs_documents = JList [],
             rs_shards = JNull, total = JInt 0, total_relation = None, max_score = JNull,
             aggregations = [] \<rparr>" "[]"]
        rs_bool_inverted [of "\<lparr> rs_raw = JNull, rs_hits = JNull,
             rs_documents = JList [JObj []], rs_shards = JNull, total = JInt 1,
             total_relation = None, max_score = JNull, aggregations = [] \<rparr>" "[JObj []]"]
  by simp

subsection \<open>Error classification\<close>

text \<open>
  Claim C8, as the code has it. A payload that is not a dict, or a dict without an
  \<open>error\<close> entry, raises \<open>UnknownError\<close>. An \<open>error\<close> entry that is not a dict raises
  \<open>ValueError\<close>. An \<open>error\<close> dict whose \<open>root_cause\<close> is a list that starts with a dict
  holding a \<open>type\<close> is classified by that type: the three named types to their classes,
  any other type to \<open>SearchError\<close>.
\<close>

theorem raise_on_transport_error_classifies:
  "((\<forall>kvs. result \<noteq> JObj kvs) \<or> (\<exists>kvs. result = JObj kvs \<and> map_of kvs ''error'' = None)
      \<longrightarrow> raise_on_transport_error result status = Inl (UnknownError result status))
   \<and> (result = JObj kvs \<and> map_of kvs ''error'' = Some raw \<and> (\<forall>e. raw \<noteq> JObj e)
      \<longrightarrow> raise_on_transport_error result status = Inl (ValueError raw))
   \<and> (result = JObj kvs \<and> map_of kvs ''error'' = Some (JObj e)
       \<and> map_of e ''root_cause'' = Some (JList (JObj c # rest)) \<and> map_of c ''type'' = Some t
      \<longrightarrow> raise_on_transport_error result status = Inl (
            if t = JStr ''index_not_found_exception''
              then IndexMissingException (JObj c) status
            else if t = JStr ''document_missing_exception''
              then DocumentMissingException (JObj c) status
            else if t = JStr ''too_complex_to_determinize_exception''
              then TooComplexToDetermine (JObj c) status
            else SearchError (JObj c) status))"
proof (intro conjI impI)
  assume "(\<forall>kvs. result \<noteq> JObj kvs) \<or> (\<exists>kvs. result = JObj kvs \<and> map_of kvs ''error'' = None)"
  then show "raise_on_transport_error result status = Inl (UnknownError result status)"
    by (cases result) (auto simp: raise_on_transport_error_def)
next
  assume "result = JObj kvs \<and> map_of kvs ''error'' = Some raw \<and> (\<forall>e. raw \<noteq> JObj e)"
  then show "raise_on_transport_error result status = Inl (ValueError raw)"
    by (cases raw) (auto simp: raise_on_transport_error_def bindE_def)
next
  assume "result = JObj kvs \<and> map_of kvs ''error'' = Some (JObj e)
       \<and> map_of e ''root_cause'' = Some (JList (JObj c # rest)) \<and> map_of c ''type'' = Some t"
  then show "raise_on_transport_error result status = Inl (
            if t = JStr ''index_not_found_exception''
              then IndexMissingException (JObj c) status
            else if t = JStr ''document_missing_exception''
              then DocumentMissingException (JObj c) status
            else if t = JStr ''too_complex_to_determinize_exception''
              then TooComplexToDetermine (JObj c) status
            else SearchError (JObj c) status)"
    by (simp add: raise_on_transport_error_def bindE_def match_error_def)
qed

theorem raise_on_transport_error_classifies_witness:
  "raise_on_transport_error (JStr ''gateway timeout'') (JInt 504)
     = Inl (UnknownError (JStr ''gateway timeout'') (JInt 504))
   \<and> raise_on_transport_error (JObj [(''error'', JObj [(''root_cause'',
        JList [JObj [(''type'', JStr ''index_not_found_exception''),
                     (''reason'', JStr ''no such index'')]])])]) (JInt 404)
     = Inl (IndexMissingException (JObj [(''type'', JStr ''index_not_found_exception''),
                     (''reason'', JStr ''no such index'')]) (JInt 404))
   \<and> raise_on_transport_error (JObj [(''error'', JObj [(''root_cause'',
        JList [JObj [(''type'', JStr ''parsing_exception'')]])])]) (JInt 400)
     = Inl (SearchError (JObj [(''type'', JStr ''parsing_exception'')]) (JInt 400))"
  using raise_on_transport_error_classifies [of "JStr ''gateway timeout''" "JInt 504"]
    raise_on_transport_error_classifies [of "JObj [(''error'', JObj [(''root_cause'',
        JList [JObj [(''type'', JStr ''index_not_found_exception''),
                     (''reason'', JStr ''no such index'')]])])]" "JInt 404"
        "[(''error'', JObj [(''root_cause'',
        JList [JObj [(''type'', JStr ''index_not_found_exception''),
                     (''reason'', JStr ''no such index'')]])])]" _
        "[(''root_cause'',
        JList [JObj [(''type'', JStr ''index_not_found_exception''),
                     (''reason'', JStr ''no such index'')]])]"
        "[(''type'', JStr ''index_not_found_exception''),
                     (''reason'', JStr ''no such index'')]" "[]"
        "JStr ''index_not_found_exception''"]
    raise_on_transport_error_classifies [of "JObj [(''error'', JObj [(''root_cause'',
        JList [JObj [(''type'', JStr ''parsing_exception'')]])])]" "JInt 400"
        "[(''error'', JObj [(''root_cause'',
        JList [JObj [(''type'', JStr ''parsing_exception'')]])])]" _
        "[(''root_cause'', JList [JObj [(''type'', JStr ''parsing_exception'')]])]"
        "[(''type'', JStr ''parsing_exception'')]" "[]" "JStr ''parsing_exception''"]
  by simp

text \<open>
  Claim C8 as stated fails. An \<open>error\<close> entry that is a string (not a dict) raises
  \<open>ValueError\<close>, not \<open>UnknownError\<close>; an empty \<open>root_cause\<close> list raises nothing at all.
\<close>

theorem raise_on_transport_error_counterexample:
  "raise_on_transport_error (JObj [(''error'', JStr ''boom'')]) (JInt 500)
     = Inl (ValueError (JStr ''boom''))
   \<and> raise_on_transport_error (JObj [(''error'', JObj [(''root_cause'', JList [])])]) (JInt 500)
     = Inr ()"
  by (simp add: raise_on_transport_error_def bindE_def)

subsection \<open>The identifier of a reconstructed model\<close>

lemma map_of_filter_None: "map_of kvs k = None \<Longrightarrow> map_of (filter P kvs) k = None"
  by (induction kvs) auto

text \<open>
  Claim C9. The code at a document without an \<open>id\<close>: the default
  \<open>process_load_fields\<close> reads \<open>load_fields["id"]\<close> first, so reconstruction fails with
  \<open>KeyError\<close> and never reaches the check that raises the "id not present" failure.
\<close>

theorem type_from_fields_missing_id_KeyError:
  "map_of items ''id'' = None \<Longrightarrow>
     type_from_fields (process_load_fields str_to_int parse_date sc) sc (JObj items)
       = Inl (KeyError (JStr ''id''))"
  by (simp add: type_from_fields_def process_load_fields_def bindE_def map_of_filter_None)

theorem type_from_fields_missing_id_KeyError_witness:
  "type_from_fields (process_load_fields (\<lambda>s. None) (\<lambda>s. Inr (JStr s))
       \<lparr>complex_field_names = [], nullable_fields = [], datetime_fields = []\<rparr>)
     \<lparr>complex_field_names = [], nullable_fields = [], datetime_fields = []\<rparr>
     (JObj [(''name'', JStr ''x'')])
   = Inl (KeyError (JStr ''id''))"
  using type_from_fields_missing_id_KeyError [of "[(''name'', JStr ''x'')]"]
  by simp

text \<open>
  The check itself works for a \<open>process_load_fields\<close> that returns without an \<open>id\<close>;
  the default one never does.
\<close>

lemma type_from_fields_guard:
  "plf (filter (\<lambda>kv. fst kv \<notin> set (complex_field_names sc)) items) = Inr lf \<Longrightarrow>
   map_of lf ''id'' = None \<Longrightarrow>
   type_from_fields plf sc (JObj items) = Inl (TypeError (JStr ''id not present in load_fields''))"
  by (simp add: type_from_fields_def bindE_def)

lemma map_of_add_nullable:
  "map_of lf k = Some y \<Longrightarrow> \<exists>z. map_of (add_nullable ns lf) k = Some z"
proof (induction ns arbitrary: lf y)
  case Nil
  then show ?case by simp
next
  case (Cons a ns)
  have "\<exists>y'. map_of (AList.update a JNull lf) k = Some y'"
    using Cons.prems by (cases "k = a") (simp_all add: update_conv')
  with Cons.IH Cons.prems show ?case by (cases "map_of lf a = None") auto
qed

lemma map_of_convert_dates:
  "convert_dates pd ks lf = Inr lf' \<Longrightarrow> map_of lf k = Some y \<Longrightarrow> \<exists>z. map_of lf' k = Some z"
proof (induction ks arbitrary: lf y)
  case Nil
  then show ?case by simp
next
  case (Cons key ks)
  from Cons.prems(1) obtain d where
    step: "convert_dates pd ks (AList.update key d lf) = Inr lf'"
    by (auto split: sum.splits)
  from Cons.prems(2) obtain y' where "map_of (AList.update key d lf) k = Some y'"
    by (cases "k = key") (simp_all add: update_conv')
  with Cons.IH [OF step] show ?case by blast
qed

lemma process_load_fields_keeps_id:
  assumes "process_load_fields str_to_int parse_date sc lf = Inr lf'"
  shows "map_of lf' ''id'' \<noteq> None"
proof -
  from assms obtain n lf1 where
    cd: "convert_dates parse_date (datetime_fields sc) (AList.update ''id'' (JInt n) lf) = Inr lf1"
    and lf': "lf' = add_nullable (nullable_fields sc) lf1"
    unfolding process_load_fields_def bindE_def by (auto split: sum.splits)
  have "map_of (AList.update ''id'' (JInt n) lf) ''id'' = Some (JInt n)"
    by (simp add: update_conv')
  from map_of_convert_dates [OF cd this] obtain z where "map_of lf1 ''id'' = Some z" by blast
  from map_of_add_nullable [OF this] lf' show ?thesis by auto
qed

subsection \<open>Copy on write\<close>

text \<open>
  The store only grows under the chained methods: \<open>copy\<close> allocates the new instance
  and its lists, and the method body writes to these only.
\<close>

lemma lookup_alloc:
  "lookup (fst (alloc w c)) r = (if r = length (w_heap w) then Some c else lookup w r)"
  by (auto simp: lookup_def alloc_def nth_append)

lemma lookup_store:
  "lookup (store w r c) r' = (if r' = r \<and> r < length (w_heap w) then Some c else lookup w r')"
  by (auto simp: lookup_def store_def)

lemma extends_refl: "extends w w"
  by (simp add: extends_def)

lemma extends_trans: "extends w w1 \<Longrightarrow> extends w1 w2 \<Longrightarrow> extends w w2"
proof -
  assume a: "extends w w1" and b: "extends w1 w2"
  have "take (length (w_heap w)) (w_heap w2)
        = take (length (w_heap w)) (take (length (w_heap w1)) (w_heap w2))"
    using a by (simp add: extends_def min_def)
  also have "\<dots> = w_heap w" using a b by (simp add: extends_def)
  finally show ?thesis using a b by (simp add: extends_def)
qed

lemma extends_alloc: "extends w (fst (alloc w c))"
  by (simp add: extends_def alloc_def)

lemma extends_store: "length (w_heap w) \<le> r \<Longrightarrow> extends w w1 \<Longrightarrow> extends w (store w1 r c)"
  by (simp add: extends_def store_def)

lemma extends_log: "extends w w1 \<Longrightarrow> extends w (w1\<lparr>w_log := l\<rparr>)"
  by (simp add: extends_def)

lemma extends_calls: "extends w w1 \<Longrightarrow> extends w (w1\<lparr>w_calls := l\<rparr>)"
  by (simp add: extends_def)

lemma lookup_extends:
  "extends w w' \<Longrightarrow> r < length (w_heap w) \<Longrightarrow> lookup w' r = lookup w r"
proof -
  assume a: "extends w w'" and b: "r < length (w_heap w)"
  have "w_heap w ! r = take (length (w_heap w)) (w_heap w') ! r"
    using a by (simp add: extends_def)
  also have "\<dots> = w_heap w' ! r" using b by simp
  finally show ?thesis using a b by (simp add: lookup_def extends_def)
qed

lemma lookup_Some_less: "lookup w r = Some c \<Longrightarrow> r < length (w_heap w)"
  by (simp add: lookup_def split: if_splits)

lemma lookup_frame: "extends w w' \<Longrightarrow> lookup w r = Some c \<Longrightarrow> lookup w' r = Some c"
  using lookup_extends lookup_Some_less by metis

lemma get_query_set_frame:
  "extends w w' \<Longrightarrow> get_query_set w r = Some x \<Longrightarrow> get_query_set w' r = Some x"
  unfolding get_query_set_def
  by (auto split: option.splits cell.splits dest: lookup_frame)

lemma get_queries_frame:
  "extends w w' \<Longrightarrow> get_queries w r = Some x \<Longrightarrow> get_queries w' r = Some x"
  unfolding get_queries_def
  by (auto split: option.splits cell.splits dest: lookup_frame)

lemma get_sort_frame:
  "extends w w' \<Longrightarrow> get_sort w r = Some x \<Longrightarrow> get_sort w' r = Some x"
  unfolding get_sort_def
  by (auto split: option.splits cell.splits dest: lookup_frame)

lemma get_aggs_frame:
  "extends w w' \<Longrightarrow> get_aggs w r = Some x \<Longrightarrow> get_aggs w' r = Some x"
  unfolding get_aggs_def
  by (auto split: option.splits cell.splits dest: lookup_frame)

lemma get_filter_dict_frame:
  "extends w w' \<Longrightarrow> get_filter_dict w r = Some x \<Longrightarrow> get_filter_dict w' r = Some x"
  unfolding get_filter_dict_def
  by (auto split: option.splits cell.splits dest: lookup_frame)

lemma get_dict_frame:
  "extends w w' \<Longrightarrow> get_dict w r = Some x \<Longrightarrow> get_dict w' r = Some x"
  unfolding get_dict_def
  by (auto split: option.splits cell.splits dest: lookup_frame)

lemma get_filters_frame:
  assumes "extends w w'" and "get_filters w r = Some x"
  shows "get_filters w' r = Some x"
proof -
  from assms(2) obtain d where d: "get_filter_dict w r = Some d" "get_dict w d = Some x"
    unfolding get_filters_def by (auto split: option.splits)
  show ?thesis unfolding get_filters_def
    by (simp add: get_filter_dict_frame [OF assms(1) d(1)] get_dict_frame [OF assms(1) d(2)])
qed

lemma wf_qs_iff:
  "wf_qs w q \<longleftrightarrow>
     (\<exists>qs s m opt f n a. get_query_set w q = Some qs \<and> get_sort w (qs_sort qs) = Some s
        \<and> get_queries w (qs_must_search_set qs) = Some m
        \<and> get_queries w (qs_optional_search_set qs) = Some opt
        \<and> get_filters w (qs_filters qs) = Some f
        \<and> get_queries w (qs_negative_boost_queries qs) = Some n
        \<and> get_aggs w (qs_aggs_fields qs) = Some a)"
  unfolding wf_qs_def by (auto split: option.splits)

lemma wf_qs_frame:
  assumes "extends w w'" and "wf_qs w q"
  shows "wf_qs w' q"
proof -
  from assms(2) obtain qs s m opt f n a where
    g: "get_query_set w q = Some qs" "get_sort w (qs_sort qs) = Some s"
       "get_queries w (qs_must_search_set qs) = Some m"
       "get_queries w (qs_optional_search_set qs) = Some opt"
       "get_filters w (qs_filters qs) = Some f"
       "get_queries w (qs_negative_boost_queries qs) = Some n"
       "get_aggs w (qs_aggs_fields qs) = Some a"
    unfolding wf_qs_iff by blast
  note g' = get_query_set_frame [OF assms(1) g(1)] get_sort_frame [OF assms(1) g(2)]
    get_queries_frame [OF assms(1) g(3)] get_queries_frame [OF assms(1) g(4)]
    get_filters_frame [OF assms(1) g(5)] get_queries_frame [OF assms(1) g(6)]
    get_aggs_frame [OF assms(1) g(7)]
  show ?thesis unfolding wf_qs_iff using g' by blast
qed

lemma qs_to_dict_frame:
  assumes "extends w w'" and "wf_qs w q"
  shows "qs_to_dict fd w' q = qs_to_dict fd w q"
proof -
  from assms(2) obtain qs s m opt f n a where
    g: "get_query_set w q = Some qs" "get_sort w (qs_sort qs) = Some s"
       "get_queries w (qs_must_search_set qs) = Some m"
       "get_queries w (qs_optional_search_set qs) = Some opt"
       "get_filters w (qs_filters qs) = Some f"
       "get_queries w (qs_negative_boost_queries qs) = Some n"
       "get_aggs w (qs_aggs_fields qs) = Some a"
    unfolding wf_qs_iff by blast
  note g' = get_query_set_frame [OF assms(1) g(1)] get_sort_frame [OF assms(1) g(2)]
    get_queries_frame [OF assms(1) g(3)] get_queries_frame [OF assms(1) g(4)]
    get_filters_frame [OF assms(1) g(5)] get_queries_frame [OF assms(1) g(6)]
    get_aggs_frame [OF assms(1) g(7)]
  show ?thesis unfolding qs_to_dict_def by (simp add: g g')
qed

lemma get_query_set_lookup:
  "get_query_set w r = Some qs \<longleftrightarrow> lookup w r = Some (QuerySetObj qs)"
  unfolding get_query_set_def by (auto split: option.splits cell.splits)

lemma get_queries_lookup: "get_queries w r = Some x \<longleftrightarrow> lookup w r = Some (QueryList x)"
  unfolding get_queries_def by (auto split: option.splits cell.splits)

lemma get_sort_lookup: "get_sort w r = Some x \<longleftrightarrow> lookup w r = Some (SortList x)"
  unfolding get_sort_def by (auto split: option.splits cell.splits)

lemma get_aggs_lookup: "get_aggs w r = Some x \<longleftrightarrow> lookup w r = Some (AggList x)"
  unfolding get_aggs_def by (auto split: option.splits cell.splits)

lemma get_filter_dict_lookup:
  "get_filter_dict w r = Some x \<longleftrightarrow> lookup w r = Some (FilterDictObj x)"
  unfolding get_filter_dict_def by (auto split: option.splits cell.splits)

lemma get_dict_lookup: "get_dict w r = Some x \<longleftrightarrow> lookup w r = Some (Dict x)"
  unfolding get_dict_def by (auto split: option.splits cell.splits)

lemma get_filters_lookup:
  "get_filters w r = Some x \<longleftrightarrow>
     (\<exists>d. lookup w r = Some (FilterDictObj d) \<and> lookup w d = Some (Dict x))"
  unfolding get_filters_def get_filter_dict_def get_dict_def
  by (auto split: option.splits cell.splits)

lemmas get_lookup = get_query_set_lookup get_queries_lookup get_sort_lookup get_aggs_lookup
  get_filter_dict_lookup get_dict_lookup get_filters_lookup

lemma lookup_append:
  "lookup (w\<lparr>w_heap := w_heap w @ xs\<rparr>) r =
     (if r < length (w_heap w) then lookup w r
      else if r < length (w_heap w) + length xs then Some (xs ! (r - length (w_heap w)))
      else None)"
  by (auto simp: lookup_def nth_append)

lemma wf_qs_cells:
  assumes "wf_qs w q"
  obtains qs s m opt f n a d where
    "get_query_set w q = Some qs" "lookup w q = Some (QuerySetObj qs)"
    "lookup w (qs_sort qs) = Some (SortList s)"
    "lookup w (qs_must_search_set qs) = Some (QueryList m)"
    "lookup w (qs_optional_search_set qs) = Some (QueryList opt)"
    "lookup w (qs_filters qs) = Some (FilterDictObj d)"
    "lookup w d = Some (Dict f)"
    "lookup w (qs_negative_boost_queries qs) = Some (QueryList n)"
    "lookup w (qs_aggs_fields qs) = Some (AggList a)"
proof -
  from assms obtain qs s m opt f n a where
    g: "get_query_set w q = Some qs" "get_sort w (qs_sort qs) = Some s"
       "get_queries w (qs_must_search_set qs) = Some m"
       "get_queries w (qs_optional_search_set qs) = Some opt"
       "get_filters w (qs_filters qs) = Some f"
       "get_queries w (qs_negative_boost_queries qs) = Some n"
       "get_aggs w (qs_aggs_fields qs) = Some a"
    unfolding wf_qs_iff by blast
  from g(5) obtain d where "lookup w (qs_filters qs) = Some (FilterDictObj d)"
    "lookup w d = Some (Dict f)"
    unfolding get_filters_lookup by blast
  with g that show ?thesis unfolding get_lookup by blast
qed

lemma copy_attr_list:
  "lookup w r = Some c \<Longrightarrow> (\<exists>x. c = QueryList x) \<or> (\<exists>x. c = SortList x) \<or> (\<exists>x. c = AggList x)
     \<Longrightarrow> copy_attr w r = (w\<lparr>w_heap := w_heap w @ [c]\<rparr>, length (w_heap w))"
  unfolding copy_attr_def alloc_def by auto

lemma copy_attr_filter_dict:
  "lookup w r = Some (FilterDictObj d) \<Longrightarrow> lookup w d = Some c
     \<Longrightarrow> copy_attr w r = (w\<lparr>w_heap := w_heap w @ [c, FilterDictObj (length (w_heap w))]\<rparr>,
           Suc (length (w_heap w)))"
  unfolding copy_attr_def alloc_def by simp

lemma lookup_old:
  "r < length (w_heap w) \<Longrightarrow> lookup (w\<lparr>w_heap := w_heap w @ xs\<rparr>) r = lookup w r"
  by (simp add: lookup_append)

lemma copy_eq:
  assumes g: "get_query_set w q = Some qs"
       "lookup w (qs_sort qs) = Some (SortList s)"
       "lookup w (qs_must_search_set qs) = Some (QueryList m)"
       "lookup w (qs_optional_search_set qs) = Some (QueryList opt)"
       "lookup w (qs_filters qs) = Some (FilterDictObj d)"
       "lookup w d = Some (Dict f)"
       "lookup w (qs_negative_boost_queries qs) = Some (QueryList n)"
       "lookup w (qs_aggs_fields qs) = Some (AggList a)"
  shows "copy w q = (w\<lparr>w_heap := w_heap w @ [SortList s, QueryList m, QueryList opt, Dict f,
               FilterDictObj (length (w_heap w) + 3), AggList a, QueryList n,
               QuerySetObj (qs\<lparr> qs_sort := length (w_heap w),
                 qs_must_search_set := length (w_heap w) + 1,
                 qs_optional_search_set := length (w_heap w) + 2,
                 qs_filters := length (w_heap w) + 4,
                 qs_aggs_fields := length (w_heap w) + 5,
                 qs_negative_boost_queries := length (w_heap w) + 6,
                 qs_result_set := None \<rparr>)]\<rparr>, Inr (length (w_heap w) + 7))"
proof -
  note l = g(2-8) [THEN lookup_Some_less]
  define w1 where "w1 = w\<lparr>w_heap := w_heap w @ [SortList s]\<rparr>"
  define w2 where "w2 = w\<lparr>w_heap := w_heap w @ [SortList s, QueryList m]\<rparr>"
  define w3 where "w3 = w\<lparr>w_heap := w_heap w @ [SortList s, QueryList m, QueryList opt]\<rparr>"
  define w4 where "w4 = w\<lparr>w_heap := w_heap w @ [SortList s, QueryList m, QueryList opt, Dict f,
               FilterDictObj (length (w_heap w) + 3)]\<rparr>"
  define w5 where "w5 = w\<lparr>w_heap := w_heap w @ [SortList s, QueryList m, QueryList opt, Dict f,
               FilterDictObj (length (w_heap w) + 3), AggList a]\<rparr>"
  define w6 where "w6 = w\<lparr>w_heap := w_heap w @ [SortList s, QueryList m, QueryList opt, Dict f,
               FilterDictObj (length (w_heap w) + 3), AggList a, QueryList n]\<rparr>"
  have s1: "copy_attr w (qs_sort qs) = (w1, length (w_heap w))"
    using copy_attr_list [OF g(2)] by (simp add: w1_def)
  have "lookup w1 (qs_must_search_set qs) = Some (QueryList m)"
    unfolding w1_def using g(3) l by (simp add: lookup_old)
  from copy_attr_list [OF this]
  have s2: "copy_attr w1 (qs_must_search_set qs) = (w2, length (w_heap w) + 1)"
    by (simp add: w1_def w2_def)
  have "lookup w2 (qs_optional_search_set qs) = Some (QueryList opt)"
    unfolding w2_def using g(4) l by (simp add: lookup_old)
  from copy_attr_list [OF this]
  have s3: "copy_attr w2 (qs_optional_search_set qs) = (w3, length (w_heap w) + 2)"
    by (simp add: w2_def w3_def)
  have "lookup w3 (qs_filters qs) = Some (FilterDictObj d)" "lookup w3 d = Some (Dict f)"
    unfolding w3_def using g(5,6) l by (simp_all add: lookup_old)
  from copy_attr_filter_dict [OF this]
  have s4: "copy_attr w3 (qs_filters qs) = (w4, length (w_heap w) + 4)"
    by (simp add: w3_def w4_def)
  have "lookup w4 (qs_aggs_fields qs) = Some (AggList a)"
    unfolding w4_def using g(8) l by (simp add: lookup_old)
  from copy_attr_list [OF this]
  have s5: "copy_attr w4 (qs_aggs_fields qs) = (w5, length (w_heap w) + 5)"
    by (simp add: w4_def w5_def)
  have "lookup w5 (qs_negative_boost_queries qs) = Some (QueryList n)"
    unfolding w5_def using g(7) l by (simp add: lookup_old)
  from copy_attr_list [OF this]
  have s6: "copy_attr w5 (qs_negative_boost_queries qs) = (w6, length (w_heap w) + 6)"
    by (simp add: w5_def w6_def)
  show ?thesis
    unfolding copy_def by (simp add: g(1) s1 s2 s3 s4 s5 s6 alloc_def) (simp add: w6_def)
qed

lemma copy_owned:
  assumes "wf_qs w q"
  shows "\<exists>w1 q1 qs1. copy w q = (w1, Inr q1) \<and> extends w w1 \<and> owned w w1 q1
           \<and> w_log w1 = w_log w \<and> w_calls w1 = w_calls w
           \<and> get_query_set w1 q1 = Some qs1 \<and> qs_result_set qs1 = None
           \<and> qs_to_dict fd w1 q1 = qs_to_dict fd w q"
proof -
  from assms obtain qs s m opt f n a d where
    g: "get_query_set w q = Some qs" "lookup w q = Some (QuerySetObj qs)"
       "lookup w (qs_sort qs) = Some (SortList s)"
       "lookup w (qs_must_search_set qs) = Some (QueryList m)"
       "lookup w (qs_optional_search_set qs) = Some (QueryList opt)"
       "lookup w (qs_filters qs) = Some (FilterDictObj d)"
       "lookup w d = Some (Dict f)"
       "lookup w (qs_negative_boost_queries qs) = Some (QueryList n)"
       "lookup w (qs_aggs_fields qs) = Some (AggList a)"
    by (rule wf_qs_cells)
  note c = copy_eq [OF g(1) g(3-9)]
  have gs: "get_sort w (qs_sort qs) = Some s"
       "get_queries w (qs_must_search_set qs) = Some m"
       "get_queries w (qs_optional_search_set qs) = Some opt"
       "get_filters w (qs_filters qs) = Some f"
       "get_queries w (qs_negative_boost_queries qs) = Some n"
       "get_aggs w (qs_aggs_fields qs) = Some a"
    using g unfolding get_lookup by auto
  define w1 where "w1 = w\<lparr>w_heap := w_heap w @ [SortList s, QueryList m, QueryList opt, Dict f,
               FilterDictObj (length (w_heap w) + 3), AggList a, QueryList n,
               QuerySetObj (qs\<lparr> qs_sort := length (w_heap w),
                 qs_must_search_set := length (w_heap w) + 1,
                 qs_optional_search_set := length (w_heap w) + 2,
                 qs_filters := length (w_heap w) + 4,
                 qs_aggs_fields := length (w_heap w) + 5,
                 qs_negative_boost_queries := length (w_heap w) + 6,
                 qs_result_set := None \<rparr>)]\<rparr>"
  define qs1 where "qs1 = qs\<lparr> qs_sort := length (w_heap w),
                 qs_must_search_set := length (w_heap w) + 1,
                 qs_optional_search_set := length (w_heap w) + 2,
                 qs_filters := length (w_heap w) + 4,
                 qs_aggs_fields := length (w_heap w) + 5,
                 qs_negative_boost_queries := length (w_heap w) + 6,
                 qs_result_set := None \<rparr>"
  have n: "get_query_set w1 (length (w_heap w) + 7) = Some qs1"
       "get_sort w1 (qs_sort qs1) = Some s"
       "get_queries w1 (qs_must_search_set qs1) = Some m"
       "get_queries w1 (qs_optional_search_set qs1) = Some opt"
       "get_filter_dict w1 (qs_filters qs1) = Some (length (w_heap w) + 3)"
       "get_dict w1 (length (w_heap w) + 3) = Some f"
       "get_queries w1 (qs_negative_boost_queries qs1) = Some n"
       "get_aggs w1 (qs_aggs_fields qs1) = Some a"
    unfolding w1_def qs1_def
    by (simp_all add: get_query_set_def get_sort_def get_queries_def get_aggs_def
          get_filter_dict_def get_dict_def lookup_def nth_append)
  have nf: "get_filters w1 (qs_filters qs1) = Some f"
    unfolding get_filters_def by (simp add: n)
  have wf1: "wf_qs w1 (length (w_heap w) + 7)"
    unfolding wf_qs_iff using n nf by blast
  have ow: "owned w w1 (length (w_heap w) + 7)"
    unfolding owned_def using wf1 by (simp add: n) (simp add: qs1_def)
  have ex: "extends w w1" unfolding w1_def by (simp add: extends_def)
  have td: "qs_to_dict fd w1 (length (w_heap w) + 7) = qs_to_dict fd w q"
    unfolding qs_to_dict_def by (simp add: n nf g(1) gs) (simp add: qs1_def)
  have "copy w q = (w1, Inr (length (w_heap w) + 7))"
    using c by (simp add: w1_def)
  moreover have "w_log w1 = w_log w" "w_calls w1 = w_calls w" "qs_result_set qs1 = None"
    by (simp_all add: w1_def qs1_def)
  ultimately show ?thesis using ex ow n(1) td by blast
qed

lemma owned_iff:
  "owned w0 w self \<longleftrightarrow>
     (\<exists>qs s m opt d f n a.
        lookup w self = Some (QuerySetObj qs)
      \<and> lookup w (qs_sort qs) = Some (SortList s)
      \<and> lookup w (qs_must_search_set qs) = Some (QueryList m)
      \<and> lookup w (qs_optional_search_set qs) = Some (QueryList opt)
      \<and> lookup w (qs_filters qs) = Some (FilterDictObj d)
      \<and> lookup w d = Some (Dict f)
      \<and> lookup w (qs_negative_boost_queries qs) = Some (QueryList n)
      \<and> lookup w (qs_aggs_fields qs) = Some (AggList a)
      \<and> length (w_heap w0) \<le> self
      \<and> length (w_heap w0) \<le> qs_sort qs
      \<and> length (w_heap w0) \<le> qs_must_search_set qs
      \<and> length (w_heap w0) \<le> qs_optional_search_set qs
      \<and> length (w_heap w0) \<le> qs_filters qs
      \<and> length (w_heap w0) \<le> d
      \<and> length (w_heap w0) \<le> qs_negative_boost_queries qs
      \<and> length (w_heap w0) \<le> qs_aggs_fields qs)"
  (is "?L \<longleftrightarrow> ?R")
proof
  assume ?L
  then obtain qs where q: "get_query_set w self = Some qs" and wf: "wf_qs w self"
    and b: "length (w_heap w0) \<le> self" "length (w_heap w0) \<le> qs_sort qs"
      "length (w_heap w0) \<le> qs_must_search_set qs"
      "length (w_heap w0) \<le> qs_optional_search_set qs"
      "length (w_heap w0) \<le> qs_filters qs"
      "length (w_heap w0) \<le> qs_negative_boost_queries qs"
      "length (w_heap w0) \<le> qs_aggs_fields qs"
    and d: "case get_filter_dict w (qs_filters qs) of None \<Rightarrow> False
            | Some d \<Rightarrow> length (w_heap w0) \<le> d"
    unfolding owned_def by (auto split: option.splits)
  from wf obtain qs' s m opt f n a d' where
    g: "get_query_set w self = Some qs'" "lookup w self = Some (QuerySetObj qs')"
       "lookup w (qs_sort qs') = Some (SortList s)"
       "lookup w (qs_must_search_set qs') = Some (QueryList m)"
       "lookup w (qs_optional_search_set qs') = Some (QueryList opt)"
       "lookup w (qs_filters qs') = Some (FilterDictObj d')"
       "lookup w d' = Some (Dict f)"
       "lookup w (qs_negative_boost_queries qs') = Some (QueryList n)"
       "lookup w (qs_aggs_fields qs') = Some (AggList a)"
    by (rule wf_qs_cells)
  from q g(1) have e: "qs' = qs" by simp
  from d g(6) e have "length (w_heap w0) \<le> d'"
    by (simp add: get_filter_dict_def)
  with g b e show ?R by blast
next
  assume ?R
  then obtain qs s m opt d f n a where
    g: "lookup w self = Some (QuerySetObj qs)"
       "lookup w (qs_sort qs) = Some (SortList s)"
       "lookup w (qs_must_search_set qs) = Some (QueryList m)"
       "lookup w (qs_optional_search_set qs) = Some (QueryList opt)"
       "lookup w (qs_filters qs) = Some (FilterDictObj d)"
       "lookup w d = Some (Dict f)"
       "lookup w (qs_negative_boost_queries qs) = Some (QueryList n)"
       "lookup w (qs_aggs_fields qs) = Some (AggList a)"
   and b: "length (w_heap w0) \<le> self" "length (w_heap w0) \<le> qs_sort qs"
      "length (w_heap w0) \<le> qs_must_search_set qs"
      "length (w_heap w0) \<le> qs_optional_search_set qs"
      "length (w_heap w0) \<le> qs_filters qs" "length (w_heap w0) \<le> d"
      "length (w_heap w0) \<le> qs_negative_boost_queries qs"
      "length (w_heap w0) \<le> qs_aggs_fields qs"
    by blast
  have "wf_qs w self" unfolding wf_qs_iff get_lookup using g by blast
  moreover have "get_query_set w self = Some qs" "get_filter_dict w (qs_filters qs) = Some d"
    using g by (simp_all add: get_query_set_def get_filter_dict_def)
  ultimately show ?L unfolding owned_def using b by simp
qed

lemma owned_store:
  assumes "owned w0 w self" and "lookup w r = Some c" and "compatible c c'"
  shows "owned w0 (store w r c') self"
proof -
  from assms(1) obtain qs s m opt d f n a where
    g: "lookup w self = Some (QuerySetObj qs)"
       "lookup w (qs_sort qs) = Some (SortList s)"
       "lookup w (qs_must_search_set qs) = Some (QueryList m)"
       "lookup w (qs_optional_search_set qs) = Some (QueryList opt)"
       "lookup w (qs_filters qs) = Some (FilterDictObj d)"
       "lookup w d = Some (Dict f)"
       "lookup w (qs_negative_boost_queries qs) = Some (QueryList n)"
       "lookup w (qs_aggs_fields qs) = Some (AggList a)"
   and b: "length (w_heap w0) \<le> self" "length (w_heap w0) \<le> qs_sort qs"
      "length (w_heap w0) \<le> qs_must_search_set qs"
      "length (w_heap w0) \<le> qs_optional_search_set qs"
      "length (w_heap w0) \<le> qs_filters qs" "length (w_heap w0) \<le> d"
      "length (w_heap w0) \<le> qs_negative_boost_queries qs"
      "length (w_heap w0) \<le> qs_aggs_fields qs"
    unfolding owned_iff by blast
  have r: "r < length (w_heap w)" using assms(2) by (rule lookup_Some_less)
  show ?thesis
  proof (cases "r = self")
    case True
    with assms(2,3) g(1) obtain qs' where c': "c' = QuerySetObj qs'" "qs_refs qs = qs_refs qs'"
      by (cases c') auto
    have ne: "qs_sort qs \<noteq> self" "qs_must_search_set qs \<noteq> self"
      "qs_optional_search_set qs \<noteq> self" "qs_filters qs \<noteq> self" "d \<noteq> self"
      "qs_negative_boost_queries qs \<noteq> self" "qs_aggs_fields qs \<noteq> self"
      using g by auto
    from c'(2) have eq: "qs_sort qs' = qs_sort qs" "qs_must_search_set qs' = qs_must_search_set qs"
      "qs_optional_search_set qs' = qs_optional_search_set qs" "qs_filters qs' = qs_filters qs"
      "qs_negative_boost_queries qs' = qs_negative_boost_queries qs"
      "qs_aggs_fields qs' = qs_aggs_fields qs"
      by (simp_all add: qs_refs_def)
    show ?thesis
      unfolding owned_iff lookup_store using True r c'(1) g(2-8) b ne eq
      by simp
  next
    case False
    show ?thesis
      unfolding owned_iff lookup_store using False r g b assms(2,3)
      by (cases c; cases c') auto
  qed
qed

lemma heap_eq_lookup: "w_heap w1 = w_heap w \<Longrightarrow> lookup w1 r = lookup w r"
  by (simp add: lookup_def)

lemma heap_eq_owned: "w_heap w1 = w_heap w \<Longrightarrow> owned w0 w1 self = owned w0 w self"
  unfolding owned_iff lookup_def by simp

lemma heap_eq_extends: "w_heap w1 = w_heap w \<Longrightarrow> extends w0 w1 = extends w0 w"
  by (simp add: extends_def)

lemma heap_eq_get_query_set:
  "w_heap w1 = w_heap w \<Longrightarrow> get_query_set w1 self = get_query_set w self"
  by (simp add: get_query_set_def lookup_def)

lemma w_heap_store: "w_heap (store w r c) = (w_heap w)[r := c]"
  by (simp add: store_def)

lemma store_ok:
  assumes "extends w0 w" and "owned w0 w self" and "lookup w r = Some c"
    and "compatible c c'" and "length (w_heap w0) \<le> r"
  shows "extends w0 (store w r c') \<and> owned w0 (store w r c') self"
  using extends_store [OF assms(5,1)] owned_store [OF assms(2,3,4)] by simp

lemma get_query_set_store_other:
  "r \<noteq> self \<Longrightarrow> get_query_set (store w r c) self = get_query_set w self"
  by (simp add: get_query_set_def lookup_store)

lemma owned_cells:
  assumes "owned w0 w self" and "get_query_set w self = Some qs"
  obtains s m opt d f n a where
       "lookup w self = Some (QuerySetObj qs)"
       "lookup w (qs_sort qs) = Some (SortList s)"
       "lookup w (qs_must_search_set qs) = Some (QueryList m)"
       "lookup w (qs_optional_search_set qs) = Some (QueryList opt)"
       "lookup w (qs_filters qs) = Some (FilterDictObj d)"
       "lookup w d = Some (Dict f)"
       "lookup w (qs_negative_boost_queries qs) = Some (QueryList n)"
       "lookup w (qs_aggs_fields qs) = Some (AggList a)"
       "length (w_heap w0) \<le> self" "length (w_heap w0) \<le> qs_sort qs"
      "length (w_heap w0) \<le> qs_must_search_set qs"
      "length (w_heap w0) \<le> qs_optional_search_set qs"
      "length (w_heap w0) \<le> qs_filters qs" "length (w_heap w0) \<le> d"
      "length (w_heap w0) \<le> qs_negative_boost_queries qs"
      "length (w_heap w0) \<le> qs_aggs_fields qs"
proof -
  from assms(1) obtain qs' s m opt d f n a where
    g: "lookup w self = Some (QuerySetObj qs')"
       "lookup w (qs_sort qs') = Some (SortList s)"
       "lookup w (qs_must_search_set qs') = Some (QueryList m)"
       "lookup w (qs_optional_search_set qs') = Some (QueryList opt)"
       "lookup w (qs_filters qs') = Some (FilterDictObj d)"
       "lookup w d = Some (Dict f)"
       "lookup w (qs_negative_boost_queries qs') = Some (QueryList n)"
       "lookup w (qs_aggs_fields qs') = Some (AggList a)"
       "length (w_heap w0) \<le> self" "length (w_heap w0) \<le> qs_sort qs'"
      "length (w_heap w0) \<le> qs_must_search_set qs'"
      "length (w_heap w0) \<le> qs_optional_search_set qs'"
      "length (w_heap w0) \<le> qs_filters qs'" "length (w_heap w0) \<le> d"
      "length (w_heap w0) \<le> qs_negative_boost_queries qs'"
      "length (w_heap w0) \<le> qs_aggs_fields qs'"
    unfolding owned_iff by blast
  from g(1) assms(2) have e: "qs' = qs" by (simp add: get_query_set_def)
  show ?thesis
    by (rule that [OF g(1-16) [unfolded e]])
qed

lemma owned_get_query_set: "owned w0 w self \<Longrightarrow> \<exists>qs. get_query_set w self = Some qs"
  unfolding owned_def by (auto split: option.splits)

lemma set_attrs_ok:
  assumes "extends w0 w" and "owned w0 w self" and "\<And>qs. qs_refs (f qs) = qs_refs qs"
    and "set_attrs f w self = (w', r)"
  shows "extends w0 w' \<and> r = Inr self \<and> owned w0 w' self"
proof -
  from owned_get_query_set [OF assms(2)] obtain qs where q: "get_query_set w self = Some qs"
    by blast
  have l: "lookup w self = Some (QuerySetObj qs)" and b: "length (w_heap w0) \<le> self"
    by (rule owned_cells [OF assms(2) q]; assumption)+
  have "compatible (QuerySetObj qs) (QuerySetObj (f qs))" by (simp add: assms(3))
  from store_ok [OF assms(1,2) l this b] assms(4) q show ?thesis
    by (auto simp: set_attrs_def)
qed

lemma append_queries_ok:
  assumes "extends w0 w" and "owned w0 w self" and "get_query_set w self = Some qs"
    and "r = qs_must_search_set qs \<or> r = qs_optional_search_set qs
         \<or> r = qs_negative_boost_queries qs"
    and "append_queries w r new = Inr w'"
  shows "extends w0 w' \<and> owned w0 w' self \<and> get_query_set w' self = Some qs"
proof -
  obtain s0 m0 opt0 d f n0 a0 where
    l0: "lookup w self = Some (QuerySetObj qs)"
       "lookup w (qs_sort qs) = Some (SortList s0)"
       "lookup w (qs_must_search_set qs) = Some (QueryList m0)"
       "lookup w (qs_optional_search_set qs) = Some (QueryList opt0)"
       "lookup w (qs_filters qs) = Some (FilterDictObj d)"
       "lookup w d = Some (Dict f)"
       "lookup w (qs_negative_boost_queries qs) = Some (QueryList n0)"
       "lookup w (qs_aggs_fields qs) = Some (AggList a0)"
    and b0: "length (w_heap w0) \<le> self" "length (w_heap w0) \<le> qs_sort qs"
      "length (w_heap w0) \<le> qs_must_search_set qs"
      "length (w_heap w0) \<le> qs_optional_search_set qs"
      "length (w_heap w0) \<le> qs_filters qs" "length (w_heap w0) \<le> d"
      "length (w_heap w0) \<le> qs_negative_boost_queries qs"
      "length (w_heap w0) \<le> qs_aggs_fields qs"
    by (rule owned_cells [OF assms(2,3)])
  note s = l0(1)
  from assms(4) l0(3,4,7) b0(3,4,7) obtain x where
    l: "lookup w r = Some (QueryList x)" and b: "length (w_heap w0) \<le> r"
    by auto
  from l s have ne: "r \<noteq> self" by auto
  from l have "get_queries w r = Some x" by (simp add: get_queries_def)
  with assms(5) have w': "w' = store w r (QueryList (x @ new))"
    by (simp add: append_queries_def)
  have "compatible (QueryList x) (QueryList (x @ new))" by simp
  from store_ok [OF assms(1,2) l this b] w' ne assms(3) show ?thesis
    by (simp add: get_query_set_store_other)
qed

lemma FilterDict_check_heap:
  "FilterDict_check dbg mg w fs key v = (w1, r) \<Longrightarrow> w_heap w1 = w_heap w"
  unfolding FilterDict_check_def by (auto split: option.splits prod.splits if_splits)

lemma FilterDict_add_ok:
  assumes "extends w0 w" and "owned w0 w self" and "get_query_set w self = Some qs"
    and "FilterDict_add pol dbg mg w (qs_filters qs) key v = (w', r)"
  shows "extends w0 w' \<and> owned w0 w' self \<and> get_query_set w' self = Some qs"
proof -
  obtain s0 m0 opt0 d f n0 a0 where
    l0: "lookup w self = Some (QuerySetObj qs)"
       "lookup w (qs_sort qs) = Some (SortList s0)"
       "lookup w (qs_must_search_set qs) = Some (QueryList m0)"
       "lookup w (qs_optional_search_set qs) = Some (QueryList opt0)"
       "lookup w (qs_filters qs) = Some (FilterDictObj d)"
       "lookup w d = Some (Dict f)"
       "lookup w (qs_negative_boost_queries qs) = Some (QueryList n0)"
       "lookup w (qs_aggs_fields qs) = Some (AggList a0)"
    and b0: "length (w_heap w0) \<le> self" "length (w_heap w0) \<le> qs_sort qs"
      "length (w_heap w0) \<le> qs_must_search_set qs"
      "length (w_heap w0) \<le> qs_optional_search_set qs"
      "length (w_heap w0) \<le> qs_filters qs" "length (w_heap w0) \<le> d"
      "length (w_heap w0) \<le> qs_negative_boost_queries qs"
      "length (w_heap w0) \<le> qs_aggs_fields qs"
    by (rule owned_cells [OF assms(2,3)])
  note l = l0(5,6) and b = b0(6) and s = l0(1)
  from l s have ne: "d \<noteq> self" by auto
  define key1 where "key1 = (if is_multi v then pol @ key else key)"
  obtain w1 r1 where c: "FilterDict_check dbg mg w f key1 v = (w1, r1)" by fastforce
  note h = FilterDict_check_heap [OF c]
  have e1: "extends w0 w1" "owned w0 w1 self" "get_query_set w1 self = Some qs"
    "lookup w1 d = Some (Dict f)"
    using assms(1,2,3) l(2)
    by (simp_all add: heap_eq_extends [OF h] heap_eq_owned [OF h] heap_eq_get_query_set [OF h]
          heap_eq_lookup [OF h])
  show ?thesis
  proof (cases r1)
    case (Inl e)
    with assms(4) l c have "w' = w1"
      by (simp add: FilterDict_add_def get_filter_dict_def get_dict_def key1_def Let_def)
    with e1 show ?thesis by simp
  next
    case (Inr nv)
    with assms(4) l c have w': "w' = store w1 d (Dict (AList.update key1 (pol, nv) f))"
      by (simp add: FilterDict_add_def get_filter_dict_def get_dict_def key1_def Let_def)
    have "compatible (Dict f) (Dict (AList.update key1 (pol, nv) f))" by simp
    from store_ok [OF e1(1,2,4) this b] w' ne e1(3) show ?thesis
      by (simp add: get_query_set_store_other)
  qed
qed

lemma add_filters_ok:
  assumes "extends w0 w" and "owned w0 w self" and "get_query_set w self = Some qs"
    and "add_filters pol dbg mg w (qs_filters qs) fs = (w', r)"
  shows "extends w0 w' \<and> owned w0 w' self \<and> get_query_set w' self = Some qs"
  using assms
proof (induction fs arbitrary: w)
  case Nil
  then show ?case by simp
next
  case (Cons f fs)
  obtain w1 r1 where a: "FilterDict_add pol dbg mg w (qs_filters qs) (fname f) f = (w1, r1)"
    by fastforce
  note ok = FilterDict_add_ok [OF Cons.prems(1,2,3) a]
  show ?case
  proof (cases r1)
    case (Inl e)
    with Cons.prems(4) a have "w' = w1" by simp
    with ok show ?thesis by simp
  next
    case (Inr u)
    with Cons.prems(4) a have "add_filters pol dbg mg w1 (qs_filters qs) fs = (w', r)" by simp
    from Cons.IH [OF _ _ _ this] ok show ?thesis by simp
  qed
qed

lemma match_loop_ok:
  assumes "extends w0 w" and "owned w0 w self" and "get_query_set w self = Some qs"
    and "match_loop w (qs_must_search_set qs) key options vs = (w', r)"
  shows "extends w0 w' \<and> owned w0 w' self \<and> get_query_set w' self = Some qs"
  using assms
proof (induction vs arbitrary: w)
  case Nil
  then show ?case by simp
next
  case (Cons v vs)
  show ?case
  proof (cases "MatchQuery_init key v options")
    case (Inl e)
    with Cons.prems show ?thesis by simp
  next
    case (Inr q)
    show ?thesis
    proof (cases "append_queries w (qs_must_search_set qs) [q]")
      case (Inl e)
      with Cons.prems Inr show ?thesis by simp
    next
      case (Inr w1)
      note ok = append_queries_ok [OF Cons.prems(1,2,3) _ Inr]
      from Cons.prems(4) \<open>MatchQuery_init key v options = Inr q\<close> Inr
      have "match_loop w1 (qs_must_search_set qs) key options vs = (w', r)" by simp
      from Cons.IH [OF _ _ _ this] ok show ?thesis by simp
    qed
  qed
qed

lemma clone_ok:
  assumes wf: "wf_qs w q"
    and body: "\<And>w1 q1 w' r. extends w w1 \<Longrightarrow> owned w w1 q1 \<Longrightarrow> f w1 q1 = (w', r) \<Longrightarrow>
                 extends w w' \<and> (\<forall>q'. r = Inr q' \<longrightarrow> owned w w' q')"
    and res: "clone f w q = (w', r)"
  shows "extends w w' \<and> (\<forall>q'. r = Inr q' \<longrightarrow> owned w w' q')"
proof -
  from copy_owned [OF wf, of "\<lambda>_. JNull"] obtain w1 q1 where
    c: "copy w q = (w1, Inr q1)" "extends w w1" "owned w w1 q1" by blast
  from res c(1) have "f w1 q1 = (w', r)" by (simp add: clone_def)
  from body [OF c(2,3) this] show ?thesis .
qed

lemma set_attrs_body:
  assumes "\<And>qs. qs_refs (f qs) = qs_refs qs"
    and "extends w0 w" and "owned w0 w self" and "set_attrs f w self = (w', r)"
  shows "extends w0 w' \<and> (\<forall>q'. r = Inr q' \<longrightarrow> owned w0 w' q')"
  using set_attrs_ok [OF assms(2,3,1,4)] by auto

lemma filter_body_ok:
  assumes "extends w0 w" and "owned w0 w self"
    and "filter_body pol dbg mg pf args kwargs w self = (w', r)"
  shows "extends w0 w' \<and> (\<forall>q'. r = Inr q' \<longrightarrow> owned w0 w' q')"
proof -
  from owned_get_query_set [OF assms(2)] obtain qs where q: "get_query_set w self = Some qs"
    by blast
  show ?thesis
  proof (cases "make_filter_list pf args kwargs")
    case (Inl e)
    with assms q show ?thesis by (auto simp: filter_body_def)
  next
    case (Inr fs)
    obtain w1 r1 where a: "add_filters pol dbg mg w (qs_filters qs) fs = (w1, r1)"
      by fastforce
    note ok = add_filters_ok [OF assms(1,2) q a]
    from assms(3) q Inr a have "w' = w1 \<and> (\<forall>q'. r = Inr q' \<longrightarrow> q' = self)"
      by (cases r1) (auto simp: filter_body_def)
    with ok show ?thesis by auto
  qed
qed

lemma suppress_body_ok:
  assumes "extends w0 w" and "owned w0 w self"
    and "(case get_query_set w self of
         None \<Rightarrow> (w, Inl no_attr)
       | Some qs \<Rightarrow>
           (case make_filter_list pf args kwargs of
              Inl e \<Rightarrow> (w, Inl e)
            | Inr fs \<Rightarrow>
                (case append_queries w (qs_negative_boost_queries qs) (map FilterQ fs) of
                   Inl e \<Rightarrow> (w, Inl e)
                 | Inr w1 \<Rightarrow> (w1, Inr self)))) = (w', r)"
  shows "extends w0 w' \<and> (\<forall>q'. r = Inr q' \<longrightarrow> owned w0 w' q')"
proof -
  from owned_get_query_set [OF assms(2)] obtain qs where q: "get_query_set w self = Some qs"
    by blast
  show ?thesis
  proof (cases "make_filter_list pf args kwargs")
    case (Inl e)
    with assms q show ?thesis by auto
  next
    case (Inr fs)
    show ?thesis
    proof (cases "append_queries w (qs_negative_boost_queries qs) (map FilterQ fs)")
      case (Inl e)
      with assms q Inr show ?thesis by auto
    next
      case (Inr w1)
      from append_queries_ok [OF assms(1,2) q _ Inr] assms(3) q
        \<open>make_filter_list pf args kwargs = Inr fs\<close> Inr
      show ?thesis by auto
    qed
  qed
qed

lemma match_text_body_ok:
  assumes "extends w0 w" and "owned w0 w self"
    and "(case get_query_set w self of
         None \<Rightarrow> (w, Inl no_attr)
       | Some qs \<Rightarrow>
           (case pk kwargs of
              Inl e \<Rightarrow> (w, Inl e)
            | Inr (key, vals, options) \<Rightarrow>
                (case match_loop w (qs_must_search_set qs) key options (match_values vals) of
                   (w1, Inl e) \<Rightarrow> (w1, Inl e)
                 | (w1, Inr _) \<Rightarrow> (w1, Inr self)))) = (w', r)"
  shows "extends w0 w' \<and> (\<forall>q'. r = Inr q' \<longrightarrow> owned w0 w' q')"
proof -
  from owned_get_query_set [OF assms(2)] obtain qs where q: "get_query_set w self = Some qs"
    by blast
  show ?thesis
  proof (cases "pk kwargs")
    case (Inl e)
    with assms q show ?thesis by auto
  next
    case (Inr t)
    obtain key vals options where t: "t = (key, vals, options)" by (cases t) auto
    obtain w1 r1 where
      a: "match_loop w (qs_must_search_set qs) key options (match_values vals) = (w1, r1)"
      by fastforce
    note ok = match_loop_ok [OF assms(1,2) q a]
    from assms(3) q Inr t a have "w' = w1 \<and> (\<forall>q'. r = Inr q' \<longrightarrow> q' = self)"
      by (cases r1) auto
    with ok show ?thesis by auto
  qed
qed

lemma add_optional_query_body_ok:
  assumes "extends w0 w" and "owned w0 w self"
    and "(case get_query_set w self of
         None \<Rightarrow> (w, Inl no_attr)
       | Some qs \<Rightarrow>
           (case append_queries w (qs_optional_search_set qs) [q] of
              Inl e \<Rightarrow> (w, Inl e)
            | Inr w1 \<Rightarrow> (w1, Inr self))) = (w', r)"
  shows "extends w0 w' \<and> (\<forall>q'. r = Inr q' \<longrightarrow> owned w0 w' q')"
proof -
  from owned_get_query_set [OF assms(2)] obtain qs where q: "get_query_set w self = Some qs"
    by blast
  show ?thesis
  proof (cases "append_queries w (qs_optional_search_set qs) [q]")
    case (Inl e)
    with assms q show ?thesis by auto
  next
    case (Inr w1)
    from append_queries_ok [OF assms(1,2) q _ Inr] assms(3) q Inr
    show ?thesis by auto
  qed
qed

lemma sorted_by_body_ok:
  assumes "extends w0 w" and "owned w0 w self"
    and "(case orderings_list orderings of
         Inl e \<Rightarrow> (w, Inl e)
       | Inr result \<Rightarrow>
           (let (w1, r) = alloc w (SortList result)
            in set_attrs (\<lambda>qs. qs\<lparr>qs_sort := r\<rparr>) w1 self)) = (w', r)"
  shows "extends w0 w' \<and> (\<forall>q'. r = Inr q' \<longrightarrow> owned w0 w' q')"
proof (cases "orderings_list orderings")
  case (Inl e)
  with assms show ?thesis by auto
next
  case (Inr result)
  from owned_get_query_set [OF assms(2)] obtain qs where q: "get_query_set w self = Some qs"
    by blast
  obtain s0 m0 opt0 d f n0 a0 where
    l0: "lookup w self = Some (QuerySetObj qs)"
       "lookup w (qs_sort qs) = Some (SortList s0)"
       "lookup w (qs_must_search_set qs) = Some (QueryList m0)"
       "lookup w (qs_optional_search_set qs) = Some (QueryList opt0)"
       "lookup w (qs_filters qs) = Some (FilterDictObj d)"
       "lookup w d = Some (Dict f)"
       "lookup w (qs_negative_boost_queries qs) = Some (QueryList n0)"
       "lookup w (qs_aggs_fields qs) = Some (AggList a0)"
    and b0: "length (w_heap w0) \<le> self" "length (w_heap w0) \<le> qs_sort qs"
      "length (w_heap w0) \<le> qs_must_search_set qs"
      "length (w_heap w0) \<le> qs_optional_search_set qs"
      "length (w_heap w0) \<le> qs_filters qs" "length (w_heap w0) \<le> d"
      "length (w_heap w0) \<le> qs_negative_boost_queries qs"
      "length (w_heap w0) \<le> qs_aggs_fields qs"
    by (rule owned_cells [OF assms(2) q])
  note lt = l0 [THEN lookup_Some_less]
  define w1 where "w1 = w\<lparr>w_heap := w_heap w @ [SortList result]\<rparr>"
  define n where "n = length (w_heap w)"
  have l1: "lookup w1 self = Some (QuerySetObj qs)"
       "lookup w1 n = Some (SortList result)"
       "lookup w1 (qs_must_search_set qs) = Some (QueryList m0)"
       "lookup w1 (qs_optional_search_set qs) = Some (QueryList opt0)"
       "lookup w1 (qs_filters qs) = Some (FilterDictObj d)"
       "lookup w1 d = Some (Dict f)"
       "lookup w1 (qs_negative_boost_queries qs) = Some (QueryList n0)"
       "lookup w1 (qs_aggs_fields qs) = Some (AggList a0)"
    unfolding w1_def n_def using l0 lt by (simp_all add: lookup_append)
  have gq: "get_query_set w1 self = Some qs" using l1(1) by (simp add: get_query_set_def)
  have w': "w' = store w1 self (QuerySetObj (qs\<lparr>qs_sort := n\<rparr>))" and r: "r = Inr self"
    using assms(3) Inr gq by (simp_all add: alloc_def set_attrs_def w1_def n_def)
  have ex1: "extends w0 w1"
    using assms(1) unfolding w1_def extends_def by simp
  have ex: "extends w0 w'" unfolding w' by (rule extends_store [OF b0(1) ex1])
  have ne: "n \<noteq> self" "qs_must_search_set qs \<noteq> self" "qs_optional_search_set qs \<noteq> self"
    "qs_filters qs \<noteq> self" "d \<noteq> self" "qs_negative_boost_queries qs \<noteq> self"
    "qs_aggs_fields qs \<noteq> self"
    using l1 by auto
  have sl: "self < length (w_heap w1)" using l1(1) by (rule lookup_Some_less)
  have nb: "length (w_heap w0) \<le> n" using assms(1) by (simp add: extends_def n_def)
  have "owned w0 w' self"
    unfolding owned_iff w' lookup_store using l1 ne sl b0 nb by simp
  with ex r show ?thesis by simp
qed

lemma aggregation_body_ok:
  assumes "extends w0 w" and "owned w0 w self"
    and "(case get_query_set w self of
         None \<Rightarrow> (w, Inl no_attr)
       | Some qs \<Rightarrow>
           (case term_arg of
              JStr t \<Rightarrow>
                (case TermsFilter_init t t size_arg ordr exclude_arg include min_doc_count
                        with_top_hits (filter (\<lambda>kv. fst kv \<noteq> ''name'') kwargs) of
                   Inl e \<Rightarrow> (w, Inl e)
                 | Inr facet \<Rightarrow>
                     (case get_aggs w (qs_aggs_fields qs) of
                        None \<Rightarrow> (w, Inl no_attr)
                      | Some aggs \<Rightarrow>
                          (store w (qs_aggs_fields qs) (AggList (aggs @ [facet])), Inr self)))
            | _ \<Rightarrow> (w, Inl (NotImplementedError
                       (JStr ''Aggregation does not understand type of term''))))) = (w', r)"
  shows "extends w0 w' \<and> (\<forall>q'. r = Inr q' \<longrightarrow> owned w0 w' q')"
proof -
  from owned_get_query_set [OF assms(2)] obtain qs where q: "get_query_set w self = Some qs"
    by blast
  obtain s0 m0 opt0 d f n0 a0 where
    l0: "lookup w self = Some (QuerySetObj qs)"
       "lookup w (qs_sort qs) = Some (SortList s0)"
       "lookup w (qs_must_search_set qs) = Some (QueryList m0)"
       "lookup w (qs_optional_search_set qs) = Some (QueryList opt0)"
       "lookup w (qs_filters qs) = Some (FilterDictObj d)"
       "lookup w d = Some (Dict f)"
       "lookup w (qs_negative_boost_queries qs) = Some (QueryList n0)"
       "lookup w (qs_aggs_fields qs) = Some (AggList a0)"
    and b0: "length (w_heap w0) \<le> self" "length (w_heap w0) \<le> qs_sort qs"
      "length (w_heap w0) \<le> qs_must_search_set qs"
      "length (w_heap w0) \<le> qs_optional_search_set qs"
      "length (w_heap w0) \<le> qs_filters qs" "length (w_heap w0) \<le> d"
      "length (w_heap w0) \<le> qs_negative_boost_queries qs"
      "length (w_heap w0) \<le> qs_aggs_fields qs"
    by (rule owned_cells [OF assms(2) q])
  have ga: "get_aggs w (qs_aggs_fields qs) = Some a0"
    using l0(8) by (simp add: get_aggs_def)
  have st: "\<And>facet. extends w0 (store w (qs_aggs_fields qs) (AggList (a0 @ [facet])))
       \<and> owned w0 (store w (qs_aggs_fields qs) (AggList (a0 @ [facet]))) self"
    by (rule store_ok [OF assms(1,2) l0(8) _ b0(8)]) simp
  show ?thesis
  proof (cases "\<exists>t. term_arg = JStr t")
    case False
    with assms q show ?thesis by (cases term_arg) auto
  next
    case True
    then obtain t where t: "term_arg = JStr t" by blast
    show ?thesis
    proof (cases "TermsFilter_init t t size_arg ordr exclude_arg include min_doc_count
                        with_top_hits (filter (\<lambda>kv. fst kv \<noteq> ''name'') kwargs)")
      case (Inl e)
      with assms q t show ?thesis by auto
    next
      case (Inr facet)
      with assms(3) q t ga st [of facet] show ?thesis by auto
    qed
  qed
qed

lemma paginate_body_ok:
  assumes "extends w0 w" and "owned w0 w self"
    and "(case (page, page_size) of
         (Some p, Some ps) \<Rightarrow>
           if p \<le> 0 then (w, Inl (ValueError (JStr ''Page must be > 0'')))
           else if ps \<le> 0 then (w, Inl (ValueError (JStr ''Page_size must an integer > 0'')))
           else set_attrs (\<lambda>qs. qs\<lparr>qs_from := (p - 1) * ps, qs_page_size := ps\<rparr>) w self
       | _ \<Rightarrow> (w, Inl (TypeError (JStr ''int'')))) = (w', r)"
  shows "extends w0 w' \<and> (\<forall>q'. r = Inr q' \<longrightarrow> owned w0 w' q')"
proof (cases "\<exists>p ps. page = Some p \<and> page_size = Some ps \<and> \<not> p \<le> 0 \<and> \<not> ps \<le> 0")
  case True
  then obtain p ps where "page = Some p" "page_size = Some ps" "\<not> p \<le> 0" "\<not> ps \<le> 0"
    by blast
  with assms(3)
  have "set_attrs (\<lambda>qs. qs\<lparr>qs_from := (p - 1) * ps, qs_page_size := ps\<rparr>) w self = (w', r)"
    by simp
  from set_attrs_body [OF _ assms(1,2) this] show ?thesis by (simp add: qs_refs_def)
next
  case False
  with assms show ?thesis by (cases page; cases page_size) (auto split: if_splits)
qed

lemma slice_body_ok:
  assumes "extends w0 w" and "owned w0 w self"
    and "(case (start, end_arg) of
         (Some s, Some e) \<Rightarrow>
           if 0 > s then
             (w, Inl (ValueError (JStr ''Start must be an integer greater than 0'')))
           else if s > e then
             (w, Inl (ValueError (JStr ''End must be an integer greater than start'')))
           else if 1 > e - s then
             (w, Inl (ValueError (JStr ''Derived page size must be at least 1'')))
           else set_attrs (\<lambda>qs. qs\<lparr>qs_from := s, qs_page_size := e - s\<rparr>) w self
       | _ \<Rightarrow> (w, Inl (TypeError (JStr ''int'')))) = (w', r)"
  shows "extends w0 w' \<and> (\<forall>q'. r = Inr q' \<longrightarrow> owned w0 w' q')"
proof (cases "\<exists>s e. start = Some s \<and> end_arg = Some e \<and> \<not> 0 > s \<and> \<not> s > e \<and> \<not> 1 > e - s")
  case True
  then obtain s e where "start = Some s" "end_arg = Some e" "\<not> 0 > s" "\<not> s > e" "\<not> 1 > e - s"
    by blast
  with assms(3)
  have "set_attrs (\<lambda>qs. qs\<lparr>qs_from := s, qs_page_size := e - s\<rparr>) w self = (w', r)"
    by simp
  from set_attrs_body [OF _ assms(1,2) this] show ?thesis by (simp add: qs_refs_def)
next
  case False
  with assms show ?thesis by (cases start; cases end_arg) (auto split: if_splits)
qed

lemma call_method_ok:
  assumes wf: "wf_qs w q" and res: "call_method en c w q = (w', r)"
  shows "extends w w' \<and> (\<forall>q'. r = Inr q' \<longrightarrow> owned w w' q')"
proof (cases c)
  case (CallFilter args kwargs)
  with res have r1: "clone (filter_body ''+'' (env_debug en) (env_merge en) (env_parse_filter en)
                   args kwargs) w q = (w', r)"
    by (simp add: qs_filter_def)
  show ?thesis
    by (rule clone_ok [OF wf _ r1]) (rule filter_body_ok; assumption)
next
  case (CallExclude args kwargs)
  with res have r1: "clone (filter_body ''-'' (env_debug en) (env_merge en) (env_parse_filter en)
                   args kwargs) w q = (w', r)"
    by (simp add: exclude_def)
  show ?thesis
    by (rule clone_ok [OF wf _ r1]) (rule filter_body_ok; assumption)
next
  case (CallSuppress args kwargs)
  note r1 = res [unfolded CallSuppress call_method.simps suppress_def]
  show ?thesis
    by (rule clone_ok [OF wf _ r1]) (rule suppress_body_ok; assumption)
next
  case (CallMatchText kwargs)
  note r1 = res [unfolded CallMatchText call_method.simps match_text_def]
  show ?thesis
    by (rule clone_ok [OF wf _ r1]) (rule match_text_body_ok; assumption)
next
  case (CallAddOptionalQuery x)
  note r1 = res [unfolded CallAddOptionalQuery call_method.simps add_optional_query_def]
  show ?thesis
    by (rule clone_ok [OF wf _ r1]) (rule add_optional_query_body_ok; assumption)
next
  case (CallSortedBy x)
  note r1 = res [unfolded CallSortedBy call_method.simps sorted_by_def]
  show ?thesis
    by (rule clone_ok [OF wf _ r1]) (rule sorted_by_body_ok; assumption)
next
  case (CallAggregation x1 x2 x3 x4 x5 x6 x7 x8)
  note r1 = res [unfolded CallAggregation call_method.simps aggregation_def]
  show ?thesis
    by (rule clone_ok [OF wf _ r1]) (rule aggregation_body_ok; assumption)
next
  case (CallPaginate x1 x2)
  note r1 = res [unfolded CallPaginate call_method.simps paginate_def]
  show ?thesis
    by (rule clone_ok [OF wf _ r1]) (rule paginate_body_ok; assumption)
next
  case (CallSlice x1 x2)
  note r1 = res [unfolded CallSlice call_method.simps slice_def]
  show ?thesis
    by (rule clone_ok [OF wf _ r1]) (rule slice_body_ok; assumption)
next
  case (CallMinScore x)
  with res have r1: "clone (set_attrs (\<lambda>qs. qs\<lparr>qs_min_score := x\<rparr>)) w q = (w', r)"
    by (simp add: min_score_m_def)
  show ?thesis
    by (rule clone_ok [OF wf _ r1]) (rule set_attrs_body; (assumption | simp add: qs_refs_def))
next
  case CallNone
  with res have r1: "clone (set_attrs (\<lambda>qs. qs\<lparr>qs_is_none_set := True\<rparr>)) w q = (w', r)"
    by (simp add: none_def)
  show ?thesis
    by (rule clone_ok [OF wf _ r1]) (rule set_attrs_body; (assumption | simp add: qs_refs_def))
next
  case CallNoPages
  with res have r1: "clone (set_attrs (\<lambda>qs. qs\<lparr>qs_from := 0, qs_page_size := 0,
                   qs_track_total_hits := False\<rparr>)) w q = (w', r)"
    by (simp add: no_pages_def)
  show ?thesis
    by (rule clone_ok [OF wf _ r1]) (rule set_attrs_body; (assumption | simp add: qs_refs_def))
next
  case CallEnableHitCounter
  with res have r1: "clone (set_attrs (\<lambda>qs. qs\<lparr>qs_track_total_hits := True\<rparr>)) w q = (w', r)"
    by (simp add: enable_hit_counter_def)
  show ?thesis
    by (rule clone_ok [OF wf _ r1]) (rule set_attrs_body; (assumption | simp add: qs_refs_def))
next
  case CallDisableHitCounter
  with res have r1: "clone (set_attrs (\<lambda>qs. qs\<lparr>qs_track_total_hits := False\<rparr>)) w q = (w', r)"
    by (simp add: disable_hit_counter_def)
  show ?thesis
    by (rule clone_ok [OF wf _ r1]) (rule set_attrs_body; (assumption | simp add: qs_refs_def))
next
  case CallAll
  with res have r1: "clone (\<lambda>w self. (w, Inr self)) w q = (w', r)"
    by (simp add: all_m_def)
  show ?thesis
    by (rule clone_ok [OF wf _ r1]) auto
qed

lemma wf_qs_less: "wf_qs w q \<Longrightarrow> q < length (w_heap w)"
  unfolding wf_qs_def get_query_set_def
  by (auto split: option.splits dest: lookup_Some_less)

lemma owned_wf: "owned w w' q \<Longrightarrow> wf_qs w' q \<and> length (w_heap w) \<le> q"
  unfolding owned_def by (auto split: option.splits)

lemma call_method_frame:
  assumes "wf_qs w q" and "call_method en c w q = (w', r)"
  shows "qs_to_dict fd w' q = qs_to_dict fd w q
       \<and> lookup w' q = lookup w q
       \<and> extends w w'
       \<and> (\<forall>q'. r = Inr q' \<longrightarrow> q' \<noteq> q \<and> length (w_heap w) \<le> q' \<and> wf_qs w' q')"
proof -
  from call_method_ok [OF assms] have ex: "extends w w'"
    and ow: "\<forall>q'. r = Inr q' \<longrightarrow> owned w w' q'" by simp_all
  note lt = wf_qs_less [OF assms(1)]
  from ow owned_wf lt have "\<forall>q'. r = Inr q' \<longrightarrow> q' \<noteq> q \<and> length (w_heap w) \<le> q' \<and> wf_qs w' q'"
    by fastforce
  with qs_to_dict_frame [OF ex assms(1)] lookup_extends [OF ex lt] ex show ?thesis by simp
qed

lemma clone_returns:
  assumes wf: "wf_qs w q"
    and body: "\<And>w1 q1. extends w w1 \<Longrightarrow> owned w w1 q1 \<Longrightarrow> \<exists>w' q'. f w1 q1 = (w', Inr q')"
  shows "\<exists>w' q'. clone f w q = (w', Inr q')"
proof -
  from copy_owned [OF wf, of "\<lambda>_. JNull"] obtain w1 q1 where
    c: "copy w q = (w1, Inr q1)" "extends w w1" "owned w w1 q1" by blast
  from body [OF c(2,3)] c(1) show ?thesis by (simp add: clone_def)
qed

lemma set_attrs_returns:
  "owned w0 w self \<Longrightarrow> \<exists>w' q'. set_attrs f w self = (w', Inr q')"
  using owned_get_query_set [of w0 w self] by (auto simp: set_attrs_def)

lemma add_optional_query_returns:
  assumes "owned w0 w self"
  shows "\<exists>w' q'. (case get_query_set w self of
         None \<Rightarrow> (w, Inl no_attr)
       | Some qs \<Rightarrow>
           (case append_queries w (qs_optional_search_set qs) [q] of
              Inl e \<Rightarrow> (w, Inl e)
            | Inr w1 \<Rightarrow> (w1, Inr self))) = (w', Inr q')"
proof -
  from owned_get_query_set [OF assms] obtain qs where q: "get_query_set w self = Some qs"
    by blast
  obtain s0 m0 opt0 d f n0 a0 where
       "lookup w self = Some (QuerySetObj qs)"
       "lookup w (qs_sort qs) = Some (SortList s0)"
       "lookup w (qs_must_search_set qs) = Some (QueryList m0)"
    and l: "lookup w (qs_optional_search_set qs) = Some (QueryList opt0)"
    by (rule owned_cells [OF assms q])
  then show ?thesis by (simp add: q append_queries_def get_queries_def)
qed

lemma sorted_by_returns:
  assumes "owned w0 w self" and "orderings_list x = Inr result"
  shows "\<exists>w' q'. (case orderings_list x of
         Inl e \<Rightarrow> (w, Inl e)
       | Inr result \<Rightarrow>
           (let (w1, r) = alloc w (SortList result)
            in set_attrs (\<lambda>qs. qs\<lparr>qs_sort := r\<rparr>) w1 self)) = (w', Inr q')"
proof -
  from owned_get_query_set [OF assms(1)] obtain qs where q: "get_query_set w self = Some qs"
    by blast
  then have l: "lookup w self = Some (QuerySetObj qs)" by (simp add: get_lookup)
  from lookup_Some_less [OF l] l
  have "get_query_set (w\<lparr>w_heap := w_heap w @ [SortList result]\<rparr>) self = Some qs"
    by (simp add: get_query_set_def lookup_append)
  then show ?thesis by (simp add: assms(2) alloc_def set_attrs_def)
qed

lemma call_method_returns:
  assumes wf: "wf_qs w q" and acc: "accepted c"
  shows "\<exists>w' q'. call_method en c w q = (w', Inr q')"
proof (cases c)
  case (CallAddOptionalQuery x)
  show ?thesis
    unfolding CallAddOptionalQuery call_method.simps add_optional_query_def
    by (rule clone_returns [OF wf]) (rule add_optional_query_returns)
next
  case (CallSortedBy x)
  with acc obtain result where "orderings_list x = Inr result" by (cases "orderings_list x") auto
  then show ?thesis
    unfolding CallSortedBy call_method.simps sorted_by_def
    by (intro clone_returns [OF wf] sorted_by_returns)
next
  case (CallPaginate x1 x2)
  with acc obtain p ps where "x1 = Some p" "x2 = Some ps" "0 < p" "0 < ps"
    by (cases x1; cases x2) auto
  then show ?thesis
    unfolding CallPaginate call_method.simps paginate_def
    by (intro clone_returns [OF wf]) (simp add: set_attrs_returns)
next
  case (CallSlice x1 x2)
  with acc obtain s e where "x1 = Some s" "x2 = Some e" "0 \<le> s" "s < e"
    by (cases x1; cases x2) auto
  then show ?thesis
    unfolding CallSlice call_method.simps slice_def
    by (intro clone_returns [OF wf]) (simp add: set_attrs_returns)
next
  case (CallMinScore x)
  show ?thesis
    unfolding CallMinScore call_method.simps min_score_m_def
    by (rule clone_returns [OF wf]) (rule set_attrs_returns)
next
  case CallNone
  show ?thesis
    unfolding CallNone call_method.simps none_def
    by (rule clone_returns [OF wf]) (rule set_attrs_returns)
next
  case CallNoPages
  show ?thesis
    unfolding CallNoPages call_method.simps no_pages_def
    by (rule clone_returns [OF wf]) (rule set_attrs_returns)
next
  case CallEnableHitCounter
  show ?thesis
    unfolding CallEnableHitCounter call_method.simps enable_hit_counter_def
    by (rule clone_returns [OF wf]) (rule set_attrs_returns)
next
  case CallDisableHitCounter
  show ?thesis
    unfolding CallDisableHitCounter call_method.simps disable_hit_counter_def
    by (rule clone_returns [OF wf]) (rule set_attrs_returns)
next
  case CallAll
  show ?thesis
    unfolding CallAll call_method.simps all_m_def
    by (rule clone_returns [OF wf]) simp
qed (use acc in simp_all)




subsection \<open>The none-set\<close>

lemma empty_result_set_value:
  "empty_result_set = Inr \<lparr> rs_raw = JObj [(''hits'', JObj [(''hits'', JList []),
          (''total'', JInt 0), (''max_score'', JInt 0)]), (''_shards'', JInt 0)],
       rs_hits = JObj [(''hits'', JList []), (''total'', JInt 0), (''max_score'', JInt 0)],
       rs_documents = JList [], rs_shards = JInt 0, total = JInt 0,
       total_relation = Some (JStr ''eq''), max_score = JInt 0, aggregations = [] \<rparr>"
  by (simp add: empty_result_set_def ResultSet_init_def bindE_def decode_total_def
        decode_aggregations_def)

lemma none_set_short_circuit:
  assumes "get_query_set w q = Some qs" and "qs_is_none_set qs" and "qs_result_set qs = None"
  shows "\<exists>rs. execute fd ds indexes params w q = (w, Inr (Some rs))
     \<and> rs_documents rs = JList [] \<and> rs_len rs = Inr 0 \<and> total rs = JInt 0"
    and "count_m fd ds indexes w q = (w, Inr (JInt 0))"
    and "qs_to_dict fd w q = Inr (JObj [(''is_none'', JBool True)])"
  using assms
  by (simp_all add: execute_def count_m_def qs_to_dict_def empty_result_set_value bindE_def
        rs_len_def)

lemma none_result:
  assumes "wf_qs w q" and "none w q = (w1, r)"
  shows "\<exists>q1 qs1. r = Inr q1 \<and> get_query_set w1 q1 = Some qs1 \<and> qs_is_none_set qs1
           \<and> qs_result_set qs1 = None"
proof -
  from copy_owned [OF assms(1), of "\<lambda>_. JNull"] obtain w0 q0 qs0 where
    c: "copy w q = (w0, Inr q0)" "get_query_set w0 q0 = Some qs0" "qs_result_set qs0 = None"
    by blast
  from c(2) have "lookup w0 q0 = Some (QuerySetObj qs0)" by (simp add: get_lookup)
  from lookup_Some_less [OF this] have lt: "q0 < length (w_heap w0)" .
  from assms(2) c(1,2)
  have "w1 = store w0 q0 (QuerySetObj (qs0\<lparr>qs_is_none_set := True\<rparr>))" "r = Inr q0"
    by (simp_all add: none_def clone_def set_attrs_def)
  with lt c(3) show ?thesis by (simp add: get_query_set_def lookup_store)
qed

lemma none_set_iff:
  "none_set w q \<longleftrightarrow>
     (\<exists>qs. get_query_set w q = Some qs \<and> qs_is_none_set qs \<and> qs_result_set qs = None)"
  unfolding none_set_def by (auto split: option.splits)

lemma copy_none_set:
  assumes "wf_qs w q" and "none_set w q"
  shows "\<exists>w1 q1. copy w q = (w1, Inr q1) \<and> extends w w1 \<and> owned w w1 q1 \<and> none_set w1 q1"
proof -
  from assms(1) obtain qs s m opt f n a d where
    g: "get_query_set w q = Some qs" "lookup w q = Some (QuerySetObj qs)"
       "lookup w (qs_sort qs) = Some (SortList s)"
       "lookup w (qs_must_search_set qs) = Some (QueryList m)"
       "lookup w (qs_optional_search_set qs) = Some (QueryList opt)"
       "lookup w (qs_filters qs) = Some (FilterDictObj d)"
       "lookup w d = Some (Dict f)"
       "lookup w (qs_negative_boost_queries qs) = Some (QueryList n)"
       "lookup w (qs_aggs_fields qs) = Some (AggList a)"
    by (rule wf_qs_cells)
  note c = copy_eq [OF g(1) g(3-9)]
  from copy_owned [OF assms(1), of "\<lambda>_. JNull"] obtain w1 q1 where
    o: "copy w q = (w1, Inr q1)" "extends w w1" "owned w w1 q1" by blast
  from assms(2) g(1) have n: "qs_is_none_set qs" by (simp add: none_set_iff)
  from o(1) c n have "none_set w1 q1"
    by (auto simp: none_set_def get_query_set_def lookup_def nth_append)
  with o show ?thesis by blast
qed

lemma clone_none_set:
  assumes wf: "wf_qs w q" and ns: "none_set w q"
    and body: "\<And>w1 q1. extends w w1 \<Longrightarrow> owned w w1 q1 \<Longrightarrow> none_set w1 q1 \<Longrightarrow>
                 f w1 q1 = (w', Inr q') \<Longrightarrow> none_set w' q'"
    and res: "clone f w q = (w', Inr q')"
  shows "none_set w' q'"
proof -
  from copy_none_set [OF wf ns] obtain w1 q1 where
    c: "copy w q = (w1, Inr q1)" "extends w w1" "owned w w1 q1" "none_set w1 q1" by blast
  from res c(1) have "f w1 q1 = (w', Inr q')" by (simp add: clone_def)
  from body [OF c(2,3,4) this] show ?thesis .
qed

lemma set_attrs_none_set:
  assumes "\<And>qs. qs_is_none_set qs \<Longrightarrow> qs_is_none_set (f qs)"
    and "\<And>qs. qs_result_set (f qs) = qs_result_set qs"
    and "none_set w self" and "set_attrs f w self = (w', Inr q')"
  shows "none_set w' q'"
proof -
  from assms(3) obtain qs where q: "get_query_set w self = Some qs" "qs_is_none_set qs"
    "qs_result_set qs = None" unfolding none_set_iff by blast
  from q(1) have "lookup w self = Some (QuerySetObj qs)" by (simp add: get_lookup)
  from lookup_Some_less [OF this] have lt: "self < length (w_heap w)" .
  from assms(4) q(1) have "w' = store w self (QuerySetObj (f qs))" "q' = self"
    by (auto simp: set_attrs_def)
  with lt assms(1) [OF q(2)] assms(2) [of qs] q(3) show ?thesis
    by (simp add: none_set_def get_query_set_def lookup_store)
qed

lemma none_set_same:
  "get_query_set w self = Some qs \<Longrightarrow> get_query_set w' self = Some qs \<Longrightarrow>
     none_set w self \<Longrightarrow> none_set w' self"
  by (simp add: none_set_def)

lemma filter_body_none_set:
  assumes "extends w0 w" and "owned w0 w self" and "none_set w self"
    and "filter_body pol dbg mg pf args kwargs w self = (w', Inr q')"
  shows "none_set w' q'"
proof -
  from owned_get_query_set [OF assms(2)] obtain qs where q: "get_query_set w self = Some qs"
    by blast
  from assms(4) q obtain fs where fs: "make_filter_list pf args kwargs = Inr fs"
    by (cases "make_filter_list pf args kwargs") (auto simp: filter_body_def)
  obtain w1 r1 where a: "add_filters pol dbg mg w (qs_filters qs) fs = (w1, r1)"
    by fastforce
  note ok = add_filters_ok [OF assms(1,2) q a]
  from assms(4) q fs a have "w' = w1" "q' = self"
    by (cases r1; auto simp: filter_body_def)+
  with ok none_set_same [OF q _ assms(3)] show ?thesis by simp
qed

lemma suppress_body_none_set:
  assumes "extends w0 w" and "owned w0 w self" and "none_set w self"
    and "(case get_query_set w self of
         None \<Rightarrow> (w, Inl no_attr)
       | Some qs \<Rightarrow>
           (case make_filter_list pf args kwargs of
              Inl e \<Rightarrow> (w, Inl e)
            | Inr fs \<Rightarrow>
                (case append_queries w (qs_negative_boost_queries qs) (map FilterQ fs) of
                   Inl e \<Rightarrow> (w, Inl e)
                 | Inr w1 \<Rightarrow> (w1, Inr self)))) = (w', Inr q')"
  shows "none_set w' q'"
proof -
  from owned_get_query_set [OF assms(2)] obtain qs where q: "get_query_set w self = Some qs"
    by blast
  from assms(4) q obtain fs where fs: "make_filter_list pf args kwargs = Inr fs"
    by (cases "make_filter_list pf args kwargs") auto
  from assms(4) q fs obtain w1 where
    a: "append_queries w (qs_negative_boost_queries qs) (map FilterQ fs) = Inr w1"
    by (cases "append_queries w (qs_negative_boost_queries qs) (map FilterQ fs)") auto
  note ok = append_queries_ok [OF assms(1,2) q _ a]
  from assms(4) q fs a have "w' = w1" "q' = self" by auto
  with ok none_set_same [OF q _ assms(3)] show ?thesis by simp
qed

lemma match_text_body_none_set:
  assumes "extends w0 w" and "owned w0 w self" and "none_set w self"
    and "(case get_query_set w self of
         None \<Rightarrow> (w, Inl no_attr)
       | Some qs \<Rightarrow>
           (case pk kwargs of
              Inl e \<Rightarrow> (w, Inl e)
            | Inr (key, vals, options) \<Rightarrow>
                (case match_loop w (qs_must_search_set qs) key options (match_values vals) of
                   (w1, Inl e) \<Rightarrow> (w1, Inl e)
                 | (w1, Inr _) \<Rightarrow> (w1, Inr self)))) = (w', Inr q')"
  shows "none_set w' q'"
proof -
  from owned_get_query_set [OF assms(2)] obtain qs where q: "get_query_set w self = Some qs"
    by blast
  from assms(4) q obtain key vals options where t: "pk kwargs = Inr (key, vals, options)"
    by (cases "pk kwargs") auto
  obtain w1 r1 where
    a: "match_loop w (qs_must_search_set qs) key options (match_values vals) = (w1, r1)"
    by fastforce
  note ok = match_loop_ok [OF assms(1,2) q a]
  from assms(4) q t a have "w' = w1" "q' = self" by (cases r1; auto)+
  with ok none_set_same [OF q _ assms(3)] show ?thesis by simp
qed

lemma add_optional_query_body_none_set:
  assumes "extends w0 w" and "owned w0 w self" and "none_set w self"
    and "(case get_query_set w self of
         None \<Rightarrow> (w, Inl no_attr)
       | Some qs \<Rightarrow>
           (case append_queries w (qs_optional_search_set qs) [x] of
              Inl e \<Rightarrow> (w, Inl e)
            | Inr w1 \<Rightarrow> (w1, Inr self))) = (w', Inr q')"
  shows "none_set w' q'"
proof -
  from owned_get_query_set [OF assms(2)] obtain qs where q: "get_query_set w self = Some qs"
    by blast
  from assms(4) q obtain w1 where
    a: "append_queries w (qs_optional_search_set qs) [x] = Inr w1"
    by (cases "append_queries w (qs_optional_search_set qs) [x]") auto
  note ok = append_queries_ok [OF assms(1,2) q _ a]
  from assms(4) q a have "w' = w1" "q' = self" by auto
  with ok none_set_same [OF q _ assms(3)] show ?thesis by simp
qed

lemma sorted_by_body_none_set:
  assumes "none_set w self"
    and "(case orderings_list orderings of
         Inl e \<Rightarrow> (w, Inl e)
       | Inr result \<Rightarrow>
           (let (w1, r) = alloc w (SortList result)
            in set_attrs (\<lambda>qs. qs\<lparr>qs_sort := r\<rparr>) w1 self)) = (w', Inr q')"
  shows "none_set w' q'"
proof -
  from assms(2) obtain result where r: "orderings_list orderings = Inr result"
    by (cases "orderings_list orderings") auto
  from assms(1) obtain qs where q: "get_query_set w self = Some qs" "qs_is_none_set qs"
    "qs_result_set qs = None" unfolding none_set_iff by blast
  from q(1) have l: "lookup w self = Some (QuerySetObj qs)" by (simp add: get_lookup)
  from lookup_Some_less [OF l] l
  have "none_set (w\<lparr>w_heap := w_heap w @ [SortList result]\<rparr>) self"
    using q by (simp add: none_set_def get_query_set_def lookup_append)
  moreover from assms(2) r
  have "set_attrs (\<lambda>qs. qs\<lparr>qs_sort := length (w_heap w)\<rparr>)
          (w\<lparr>w_heap := w_heap w @ [SortList result]\<rparr>) self = (w', Inr q')"
    by (simp add: alloc_def)
  ultimately show ?thesis by (rule set_attrs_none_set [rotated 2]) simp_all
qed

lemma aggregation_body_none_set:
  assumes "owned w0 w self" and "none_set w self"
    and "(case get_query_set w self of
         None \<Rightarrow> (w, Inl no_attr)
       | Some qs \<Rightarrow>
           (case term_arg of
              JStr t \<Rightarrow>
                (case TermsFilter_init t t size_arg ordr exclude_arg include min_doc_count
                        with_top_hits (filter (\<lambda>kv. fst kv \<noteq> ''name'') kwargs) of
                   Inl e \<Rightarrow> (w, Inl e)
                 | Inr facet \<Rightarrow>
                     (case get_aggs w (qs_aggs_fields qs) of
                        None \<Rightarrow> (w, Inl no_attr)
                      | Some aggs \<Rightarrow>
                          (store w (qs_aggs_fields qs) (AggList (aggs @ [facet])), Inr self)))
            | _ \<Rightarrow> (w, Inl (NotImplementedError
                       (JStr ''Aggregation does not understand type of term''))))) = (w', Inr q')"
  shows "none_set w' q'"
proof -
  from owned_get_query_set [OF assms(1)] obtain qs where q: "get_query_set w self = Some qs"
    by blast
  obtain s0 m0 opt0 d f n0 a0 where
    l0: "lookup w self = Some (QuerySetObj qs)"
       "lookup w (qs_sort qs) = Some (SortList s0)"
       "lookup w (qs_must_search_set qs) = Some (QueryList m0)"
       "lookup w (qs_optional_search_set qs) = Some (QueryList opt0)"
       "lookup w (qs_filters qs) = Some (FilterDictObj d)"
       "lookup w d = Some (Dict f)"
       "lookup w (qs_negative_boost_queries qs) = Some (QueryList n0)"
       "lookup w (qs_aggs_fields qs) = Some (AggList a0)"
    by (rule owned_cells [OF assms(1) q])
  from l0(1,8) have ne: "qs_aggs_fields qs \<noteq> self" by auto
  from assms(3) q obtain c where "w' = store w (qs_aggs_fields qs) c" "q' = self"
    by (auto split: json.splits sum.splits option.splits)
  with ne q assms(2) show ?thesis
    by (simp add: none_set_def get_query_set_store_other)
qed

lemma call_method_none_set:
  assumes wf: "wf_qs w q" and ns: "none_set w q" and res: "call_method en c w q = (w', Inr q')"
  shows "none_set w' q'"
proof (cases c)
  case (CallFilter args kwargs)
  note r1 = res [unfolded CallFilter call_method.simps qs_filter_def]
  show ?thesis
    by (rule clone_none_set [OF wf ns _ r1]) (rule filter_body_none_set; assumption)
next
  case (CallExclude args kwargs)
  note r1 = res [unfolded CallExclude call_method.simps exclude_def]
  show ?thesis
    by (rule clone_none_set [OF wf ns _ r1]) (rule filter_body_none_set; assumption)
next
  case (CallSuppress args kwargs)
  note r1 = res [unfolded CallSuppress call_method.simps suppress_def]
  show ?thesis
    by (rule clone_none_set [OF wf ns _ r1]) (rule suppress_body_none_set; assumption)
next
  case (CallMatchText kwargs)
  note r1 = res [unfolded CallMatchText call_method.simps match_text_def]
  show ?thesis
    by (rule clone_none_set [OF wf ns _ r1]) (rule match_text_body_none_set; assumption)
next
  case (CallAddOptionalQuery x)
  note r1 = res [unfolded CallAddOptionalQuery call_method.simps add_optional_query_def]
  show ?thesis
    by (rule clone_none_set [OF wf ns _ r1]) (rule add_optional_query_body_none_set; assumption)
next
  case (CallSortedBy x)
  note r1 = res [unfolded CallSortedBy call_method.simps sorted_by_def]
  show ?thesis
    by (rule clone_none_set [OF wf ns _ r1]) (rule sorted_by_body_none_set; assumption)
next
  case (CallAggregation x1 x2 x3 x4 x5 x6 x7 x8)
  note r1 = res [unfolded CallAggregation call_method.simps aggregation_def]
  show ?thesis
    by (rule clone_none_set [OF wf ns _ r1]) (rule aggregation_body_none_set; assumption)
next
  case (CallPaginate x1 x2)
  note r1 = res [unfolded CallPaginate call_method.simps paginate_def]
  show ?thesis
  proof (rule clone_none_set [OF wf ns _ r1])
    fix w1 q1
    assume n: "none_set w1 q1"
      and b: "(case (x1, x2) of
         (Some p, Some ps) \<Rightarrow>
           if p \<le> 0 then (w1, Inl (ValueError (JStr ''Page must be > 0'')))
           else if ps \<le> 0 then (w1, Inl (ValueError (JStr ''Page_size must an integer > 0'')))
           else set_attrs (\<lambda>qs. qs\<lparr>qs_from := (p - 1) * ps, qs_page_size := ps\<rparr>) w1 q1
       | _ \<Rightarrow> (w1, Inl (TypeError (JStr ''int'')))) = (w', Inr q')"
    from b obtain p ps where
      "set_attrs (\<lambda>qs. qs\<lparr>qs_from := (p - 1) * ps, qs_page_size := ps\<rparr>) w1 q1 = (w', Inr q')"
      by (cases x1; cases x2) (auto split: if_splits)
    with n show "none_set w' q'" by (rule set_attrs_none_set [rotated 2]) simp_all
  qed
next
  case (CallSlice x1 x2)
  note r1 = res [unfolded CallSlice call_method.simps slice_def]
  show ?thesis
  proof (rule clone_none_set [OF wf ns _ r1])
    fix w1 q1
    assume n: "none_set w1 q1"
      and b: "(case (x1, x2) of
         (Some s, Some e) \<Rightarrow>
           if 0 > s then
             (w1, Inl (ValueError (JStr ''Start must be an integer greater than 0'')))
           else if s > e then
             (w1, Inl (ValueError (JStr ''End must be an integer greater than start'')))
           else if 1 > e - s then
             (w1, Inl (ValueError (JStr ''Derived page size must be at least 1'')))
           else set_attrs (\<lambda>qs. qs\<lparr>qs_from := s, qs_page_size := e - s\<rparr>) w1 q1
       | _ \<Rightarrow> (w1, Inl (TypeError (JStr ''int'')))) = (w', Inr q')"
    from b obtain s e where
      "set_attrs (\<lambda>qs. qs\<lparr>qs_from := s, qs_page_size := e - s\<rparr>) w1 q1 = (w', Inr q')"
      by (cases x1; cases x2) (auto split: if_splits)
    with n show "none_set w' q'" by (rule set_attrs_none_set [rotated 2]) simp_all
  qed
next
  case (CallMinScore x)
  note r1 = res [unfolded CallMinScore call_method.simps min_score_m_def]
  show ?thesis
    by (rule clone_none_set [OF wf ns _ r1]) (rule set_attrs_none_set [rotated 2], assumption, assumption, simp_all)
next
  case CallNone
  note r1 = res [unfolded CallNone call_method.simps none_def]
  show ?thesis
    by (rule clone_none_set [OF wf ns _ r1]) (rule set_attrs_none_set [rotated 2], assumption, assumption, simp_all)
next
  case CallNoPages
  note r1 = res [unfolded CallNoPages call_method.simps no_pages_def]
  show ?thesis
    by (rule clone_none_set [OF wf ns _ r1]) (rule set_attrs_none_set [rotated 2], assumption, assumption, simp_all)
next
  case CallEnableHitCounter
  note r1 = res [unfolded CallEnableHitCounter call_method.simps enable_hit_counter_def]
  show ?thesis
    by (rule clone_none_set [OF wf ns _ r1]) (rule set_attrs_none_set [rotated 2], assumption, assumption, simp_all)
next
  case CallDisableHitCounter
  note r1 = res [unfolded CallDisableHitCounter call_method.simps disable_hit_counter_def]
  show ?thesis
    by (rule clone_none_set [OF wf ns _ r1]) (rule set_attrs_none_set [rotated 2], assumption, assumption, simp_all)
next
  case CallAll
  note r1 = res [unfolded CallAll call_method.simps all_m_def]
  show ?thesis
    by (rule clone_none_set [OF wf ns _ r1]) simp
qed

lemma call_chain_none_set:
  assumes "wf_qs w q" and "none_set w q" and "call_chain en cs w q = (w', Inr q')"
  shows "none_set w' q'"
  using assms
proof (induction cs arbitrary: w q)
  case Nil
  then show ?case by simp
next
  case (Cons c cs)
  obtain w1 r1 where m: "call_method en c w q = (w1, r1)" by fastforce
  with Cons.prems(3) obtain q1 where r1: "r1 = Inr q1"
    and ch: "call_chain en cs w1 q1 = (w', Inr q')"
    by (cases r1) auto
  from call_method_frame [OF Cons.prems(1) m, of "\<lambda>_. JNull"] r1 have wf1: "wf_qs w1 q1"
    by simp
  from call_method_none_set [OF Cons.prems(1,2)] m r1 have "none_set w1 q1" by simp
  from Cons.IH [OF wf1 this ch] show ?case .
qed

text \<open>
  Claim C6. \<open>none()\<close> returns on every well-formed query set, and on the instance it
  returns, as on every instance chained from that one, \<open>execute()\<close> returns a result
  set with no documents and total 0, \<open>count()\<close> returns 0, and both leave the world as
  it is, so the document store is not called; \<open>to_dict()\<close> is the marker
  \<open>{"is_none": True}\<close>.
\<close>

theorem none_short_circuit:
  assumes "wf_qs w q"
  shows "(\<exists>w1 q1. none w q = (w1, Inr q1))
       \<and> (call_chain en (CallNone # cs) w q = (w1, Inr q1) \<longrightarrow>
            (\<exists>rs. execute fd ds indexes params w1 q1 = (w1, Inr (Some rs))
                  \<and> rs_documents rs = JList [] \<and> rs_len rs = Inr 0 \<and> total rs = JInt 0)
          \<and> count_m fd ds indexes w1 q1 = (w1, Inr (JInt 0))
          \<and> qs_to_dict fd w1 q1 = Inr (JObj [(''is_none'', JBool True)]))"
proof (intro conjI impI)
  from call_method_returns [OF assms, of CallNone en]
  show "\<exists>w1 q1. none w q = (w1, Inr q1)" by simp
next
  assume ch: "call_chain en (CallNone # cs) w q = (w1, Inr q1)"
  obtain w0 r0 where m: "call_method en CallNone w q = (w0, r0)" by fastforce
  with ch obtain q0 where r0: "r0 = Inr q0" and ch0: "call_chain en cs w0 q0 = (w1, Inr q1)"
    by (cases r0) auto
  from call_method_frame [OF assms m, of "\<lambda>_. JNull"] r0 have wf0: "wf_qs w0 q0" by simp
  from m r0 have "none w q = (w0, Inr q0)" by simp
  from none_result [OF assms this] have "none_set w0 q0" by (simp add: none_set_iff)
  from call_chain_none_set [OF wf0 this ch0] obtain qs1 where
    n: "get_query_set w1 q1 = Some qs1" "qs_is_none_set qs1" "qs_result_set qs1 = None"
    unfolding none_set_iff by blast
  note s = none_set_short_circuit [OF n]
  show "\<exists>rs. execute fd ds indexes params w1 q1 = (w1, Inr (Some rs))
                  \<and> rs_documents rs = JList [] \<and> rs_len rs = Inr 0 \<and> total rs = JInt 0"
    by (rule s(1))
  show "count_m fd ds indexes w1 q1 = (w1, Inr (JInt 0))" by (rule s(2))
  show "qs_to_dict fd w1 q1 = Inr (JObj [(''is_none'', JBool True)])" by (rule s(3))
qed

theorem none_short_circuit_witness:
  "wf_qs w_fresh 7
   \<and> snd (none w_fresh 7) = Inr 15
   \<and> snd (call_chain env_example [CallNone, CallPaginate (Some 2) (Some 20)] w_fresh 7) = Inr 23
   \<and> fst (execute fd_example ds_example JNull JNull
        (fst (call_chain env_example [CallNone, CallPaginate (Some 2) (Some 20)] w_fresh 7)) 23)
       = fst (call_chain env_example [CallNone, CallPaginate (Some 2) (Some 20)] w_fresh 7)
   \<and> w_calls (fst (execute fd_example ds_example JNull JNull
        (fst (call_chain env_example [CallNone, CallPaginate (Some 2) (Some 20)] w_fresh 7)) 23))
       = []
   \<and> count_m fd_example ds_example JNull
        (fst (call_chain env_example [CallNone, CallPaginate (Some 2) (Some 20)] w_fresh 7)) 23
       = (fst (call_chain env_example [CallNone, CallPaginate (Some 2) (Some 20)] w_fresh 7),
          Inr (JInt 0))
   \<and> qs_to_dict fd_example
        (fst (call_chain env_example [CallNone, CallPaginate (Some 2) (Some 20)] w_fresh 7)) 23
       = Inr (JObj [(''is_none'', JBool True)])"
proof -
  define w1 where
    "w1 = fst (call_chain env_example [CallNone, CallPaginate (Some 2) (Some 20)] w_fresh 7)"
  have wf: "wf_qs w_fresh 7" by code_simp
  have r: "snd (none w_fresh 7) = Inr 15" by code_simp
  have r1: "snd (call_chain env_example [CallNone, CallPaginate (Some 2) (Some 20)] w_fresh 7)
              = Inr 23" by code_simp
  have c: "w_calls w1 = []" unfolding w1_def by code_simp
  have ch: "call_chain env_example (CallNone # [CallPaginate (Some 2) (Some 20)]) w_fresh 7
              = (w1, Inr 23)"
    unfolding w1_def using r1 by (simp add: prod_eq_iff)
  from none_short_circuit [OF wf, where en = env_example
     and cs = "[CallPaginate (Some 2) (Some 20)]" and ?w1.0 = w1 and ?q1.0 = 23
     and fd = fd_example and ds = ds_example and indexes = JNull and params = JNull]
     ch wf r r1 c
  show ?thesis unfolding w1_def [symmetric] by auto
qed

subsection \<open>Execution and its cache\<close>









subsection \<open>The shape of the compiled query\<close>

lemma to_dict_filters:
  "sequence_sum (map (to_dict fd) (map FilterQ fs)) = Inr (map fd fs)"
  by (induction fs) simp_all

lemma to_dict_filters_comp:
  "sequence_sum (map (to_dict fd \<circ> FilterQ) fs) = Inr (map fd fs)"
  by (induction fs) simp_all

lemma polarities_nonempty:
  "polarities_ok filters \<Longrightarrow> filters \<noteq> [] \<Longrightarrow>
     positive_filters filters \<noteq> [] \<or> negative_filters filters \<noteq> []"
  by (cases filters) (auto simp: polarities_ok_def positive_filters_def negative_filters_def)

lemma filter_bool_to_dict:
  assumes "polarities_ok filters" and "filters \<noteq> []"
  shows "bindE (filter_bool filters) (to_dict fd) = Inr (JObj [(''bool'', JObj (
      (if positive_filters filters \<noteq> []
       then [(''must'', JList (map fd (positive_filters filters)))] else [])
      @ (if negative_filters filters \<noteq> []
         then [(''must_not'', JList (map fd (negative_filters filters)))] else [])))])"
    and "\<exists>f. filter_bool filters = Inr f"
  using polarities_nonempty [OF assms]
  by (auto simp: filter_bool_def BoolQuery_init_def bindE_def to_dict_filters
        to_dict_filters_comp entry_def)

text \<open>
  Claim C1, as the code has it. For a query set without negative boost queries whose must
  and optional queries serialise, the compiled query is \<open>match_all\<close> when there are no
  queries and no filters; a \<open>constant_score\<close> around the filter-context bool when there
  are only filters; the search-context bool when there are only queries; and otherwise an
  outer bool whose \<open>must\<close> holds the search-context bool and whose \<open>filter\<close> holds the
  filter-context bool. The filter-context bool holds the positive filters under \<open>must\<close>
  and the negative ones under \<open>must_not\<close>; the search-context bool holds the must
  queries under \<open>must\<close>, the optional ones under \<open>should\<close>, and
  \<open>minimum_should_match\<close> only when there are optional queries (and it is not 0). A key
  whose list is empty is left out.
\<close>

theorem serialized_query_shapes:
  assumes "sequence_sum (map (to_dict fd) must) = Inr mj"
      and "sequence_sum (map (to_dict fd) opt) = Inr oj"
      and "polarities_ok filters"
  shows "serialized_query fd must opt filters [] msm = Inr (
     let filter_context = JObj [(''bool'', JObj (
            (if positive_filters filters \<noteq> []
             then [(''must'', JList (map fd (positive_filters filters)))] else [])
            @ (if negative_filters filters \<noteq> []
               then [(''must_not'', JList (map fd (negative_filters filters)))] else [])))];
         search_context = JObj [(''bool'', JObj (
            (if opt \<noteq> [] \<and> msm \<noteq> 0 then [(''minimum_should_match'', JInt msm)] else [])
            @ (if must \<noteq> [] then [(''must'', JList mj)] else [])
            @ (if opt \<noteq> [] then [(''should'', JList oj)] else [])))]
     in if must = [] \<and> opt = [] then
          (if filters = [] then JObj [(''match_all'', JObj [])]
           else JObj [(''constant_score'', JObj [(''filter'', filter_context)])])
        else
          (if filters = [] then search_context
           else JObj [(''bool'', JObj [(''must'', JList [search_context]),
                                      (''filter'', filter_context)])]))"
proof (cases "filters = []")
  case True
  with assms(1,2) show ?thesis
    by (auto simp: serialized_query_def BoolQuery_init_def bindE_def entry_def Let_def)
next
  case False
  note fb = filter_bool_to_dict [OF assms(3) False]
  from fb(1) [of fd] fb(2) obtain f where
    f: "filter_bool filters = Inr f"
    and t: "to_dict fd f = Inr (JObj [(''bool'', JObj (
      (if positive_filters filters \<noteq> []
       then [(''must'', JList (map fd (positive_filters filters)))] else [])
      @ (if negative_filters filters \<noteq> []
         then [(''must_not'', JList (map fd (negative_filters filters)))] else [])))])"
    by (auto simp: bindE_def)
  show ?thesis
    using False assms(1,2) f t
    by (auto simp: serialized_query_def BoolQuery_init_def bindE_def entry_def Let_def)
qed

theorem serialized_query_shapes_witness:
  "serialized_query fd_example [MatchQuery ''title'' (JStr ''fox'') (JStr ''boolean'') (JInt 50)] []
     [(''+field'', ''+'', Filter ''field'' ''in'' [JInt 1, JInt 2] True),
      (''-tag'', ''-'', Filter ''tag'' ''in'' [JInt 9] True)] [] 1
   = Inr (JObj [(''bool'', JObj [
       (''must'', JList [JObj [(''bool'', JObj [(''must'', JList [JObj [(''match'',
           JObj [(''title'', JObj [(''query'', JStr ''fox''), (''max_expansions'', JInt 50)])])]])])]]),
       (''filter'', JObj [(''bool'', JObj [
           (''must'', JList [JObj [(''in'', JObj [(''field'', JList [JInt 1, JInt 2])])]]),
           (''must_not'', JList [JObj [(''in'', JObj [(''tag'', JList [JInt 9])])]])])])])])
   \<and> serialized_query fd_example [] []
     [(''-tag'', ''-'', Filter ''tag'' ''in'' [JInt 9] True)] [] 1
   = Inr (JObj [(''constant_score'', JObj [(''filter'', JObj [(''bool'', JObj [
           (''must_not'', JList [JObj [(''in'', JObj [(''tag'', JList [JInt 9])])]])])])])])
   \<and> serialized_query fd_example [] [] [] [] 1 = Inr (JObj [(''match_all'', JObj [])])"
  using serialized_query_shapes [where fd = fd_example
      and must = "[MatchQuery ''title'' (JStr ''fox'') (JStr ''boolean'') (JInt 50)]"
      and opt = "[]" and msm = 1
      and filters = "[(''+field'', ''+'', Filter ''field'' ''in'' [JInt 1, JInt 2] True),
                      (''-tag'', ''-'', Filter ''tag'' ''in'' [JInt 9] True)]"]
    serialized_query_shapes [where fd = fd_example and must = "[]" and opt = "[]" and msm = 1
      and filters = "[(''-tag'', ''-'', Filter ''tag'' ''in'' [JInt 9] True)]"]
    serialized_query_shapes [where fd = fd_example and must = "[]" and opt = "[]" and msm = 1
      and filters = "[]"]
  by (simp add: polarities_ok_def positive_filters_def negative_filters_def fd_example_def)

text \<open>
  Claim C1 as stated fails. After \<open>suppress\<close> the query set has no must or optional
  query and no filter, yet the compiled query is not \<open>match_all\<close>: the result is
  wrapped in a \<open>NegativeBoost\<close>, whose \<open>to_dict\<close> iterates over the wrapped query
  object and raises \<open>TypeError\<close>.
\<close>

theorem serialized_query_negative_boost_counterexample:
  "snd (call_method env_example
          (CallSuppress [AFilter (Filter ''field'' ''in'' [JInt 1] True)] []) w_fresh 7) = Inr 15
   \<and> get_queries (fst (call_method env_example
          (CallSuppress [AFilter (Filter ''field'' ''in'' [JInt 1] True)] []) w_fresh 7)) 9
       = Some []
   \<and> get_queries (fst (call_method env_example
          (CallSuppress [AFilter (Filter ''field'' ''in'' [JInt 1] True)] []) w_fresh 7)) 10
       = Some []
   \<and> get_filters (fst (call_method env_example
          (CallSuppress [AFilter (Filter ''field'' ''in'' [JInt 1] True)] []) w_fresh 7)) 12
       = Some []
   \<and> qs_to_dict fd_example (fst (call_method env_example
          (CallSuppress [AFilter (Filter ''field'' ''in'' [JInt 1] True)] []) w_fresh 7)) 15
       = Inl (TypeError (JStr ''object is not iterable''))
   \<and> serialized_query fd_example [] [] [] [FilterQ (Filter ''field'' ''in'' [JInt 1] True)] 1
       = Inl (TypeError (JStr ''object is not iterable''))"
  by code_simp

subsection \<open>Merging filters of one key\<close>

text \<open>
  Claim C5. When a filter is added under a key that is already set, \<open>FilterDict\<close> tries
  the merge first: a merged filter replaces the entry (no new entry, no message, no
  error, whatever \<open>DEBUG\<close> is); only when the merge gives None is the overwrite
  reported, raised as \<open>ValueError\<close> when \<open>DEBUG\<close> is set and logged (and carried out)
  otherwise. Two filters of the same field and kind merge into one filter whose values
  are the union of both.
\<close>

theorem FilterDict_merges_before_conflict:
  assumes "get_filter_dict w fdict = Some d" and "get_dict w d = Some filters"
    and "key1 = (if is_multi v then polarity @ key else key)"
    and "map_of filters key1 = Some (prev_type, prev)"
  shows "(merge prev v = Some merged \<longrightarrow>
            FilterDict_add polarity debug merge w fdict key v
              = (store w d (Dict (AList.update key1 (polarity, merged) filters)), Inr ())
          \<and> length (AList.update key1 (polarity, merged) filters) = length filters
          \<and> map_of (AList.update key1 (polarity, merged) filters) key1
              = Some (polarity, merged))
       \<and> (merge prev v = None \<and> debug \<longrightarrow>
            FilterDict_add polarity debug merge w fdict key v
              = (w, Inl (ValueError (JStr (overridden_message key1)))))
       \<and> (merge prev v = None \<and> \<not> debug \<longrightarrow>
            FilterDict_add polarity debug merge w fdict key v
              = (store (w\<lparr>w_log := w_log w @ [overridden_message key1]\<rparr>) d
                   (Dict (AList.update key1 (polarity, v) filters)), Inr ()))
       \<and> (fname prev = fname v \<and> fkind prev = fkind v \<longrightarrow>
            merge_spec prev v
              = Some (Filter (fname v) (fkind v)
                        (fvalues prev @ filter (\<lambda>x. x \<notin> set (fvalues prev)) (fvalues v))
                        (is_multi prev))
          \<and> set (fvalues prev @ filter (\<lambda>x. x \<notin> set (fvalues prev)) (fvalues v))
              = set (fvalues prev) \<union> set (fvalues v))"
proof -
  have len: "\<And>x. length (AList.update key1 x filters) = length filters"
    using assms(4) by (induction filters) (auto split: if_splits)
  show ?thesis
    using assms len
    by (auto simp: FilterDict_add_def FilterDict_check_def merge_spec_def update_conv'
          Let_def store_def)
qed

theorem FilterDict_merges_before_conflict_witness:
  "snd (call_method env_example (CallFilter [] [(''field__in'', JList [JInt 2, JInt 3])])
         (fst (call_method env_example (CallFilter [] [(''field__in'', JList [JInt 1, JInt 2])])
                 w_fresh 7)) 15) = Inr 23
   \<and> get_filters (fst (call_method env_example
           (CallFilter [] [(''field__in'', JList [JInt 2, JInt 3])])
           (fst (call_method env_example (CallFilter [] [(''field__in'', JList [JInt 1, JInt 2])])
                   w_fresh 7)) 15)) 20
       = Some [(''+field'', ''+'', Filter ''field'' ''in'' [JInt 1, JInt 2, JInt 3] True)]
   \<and> qs_to_dict fd_example (fst (call_method env_example
           (CallFilter [] [(''field__in'', JList [JInt 2, JInt 3])])
           (fst (call_method env_example (CallFilter [] [(''field__in'', JList [JInt 1, JInt 2])])
                   w_fresh 7)) 15)) 23
       = Inr (JObj [(''sort'', JList [JStr ''_score'', JStr ''id'']), (''size'', JInt 10),
           (''query'', JObj [(''constant_score'', JObj [(''filter'', JObj [(''bool'', JObj [
               (''must'', JList [JObj [(''in'', JObj [(''field'',
                   JList [JInt 1, JInt 2, JInt 3])])]])])])])]),
           (''track_total_hits'', JBool False)])
   \<and> FilterDict_add ''+'' True merge_spec
         (fst (call_method env_example (CallFilter [] [(''field__in'', JList [JInt 1, JInt 2])])
                 w_fresh 7)) 12 ''field'' (Filter ''field'' ''in'' [JInt 2, JInt 3] True)
       = (store (fst (call_method env_example
                   (CallFilter [] [(''field__in'', JList [JInt 1, JInt 2])]) w_fresh 7)) 11
            (Dict [(''+field'', ''+'', Filter ''field'' ''in'' [JInt 1, JInt 2, JInt 3] True)]),
          Inr ())"
proof -
  define w1 where "w1 = fst (call_method env_example
      (CallFilter [] [(''field__in'', JList [JInt 1, JInt 2])]) w_fresh 7)"
  have a: "get_filter_dict w1 12 = Some 11"
       "get_dict w1 11 = Some [(''+field'', ''+'', Filter ''field'' ''in'' [JInt 1, JInt 2] True)]"
    unfolding w1_def by code_simp+
  have e: "snd (call_method env_example (CallFilter [] [(''field__in'', JList [JInt 2, JInt 3])])
         w1 15) = Inr 23"
    "get_filters (fst (call_method env_example
           (CallFilter [] [(''field__in'', JList [JInt 2, JInt 3])]) w1 15)) 20
       = Some [(''+field'', ''+'', Filter ''field'' ''in'' [JInt 1, JInt 2, JInt 3] True)]"
    "qs_to_dict fd_example (fst (call_method env_example
           (CallFilter [] [(''field__in'', JList [JInt 2, JInt 3])]) w1 15)) 23
       = Inr (JObj [(''sort'', JList [JStr ''_score'', JStr ''id'']), (''size'', JInt 10),
           (''query'', JObj [(''constant_score'', JObj [(''filter'', JObj [(''bool'', JObj [
               (''must'', JList [JObj [(''in'', JObj [(''field'',
                   JList [JInt 1, JInt 2, JInt 3])])]])])])])]),
           (''track_total_hits'', JBool False)])"
    unfolding w1_def by code_simp+
  from FilterDict_merges_before_conflict [OF a, where polarity = "''+''" and key = "''field''"
      and v = "Filter ''field'' ''in'' [JInt 2, JInt 3] True" and ?key1.0 = "''+field''"
      and prev_type = "''+''" and prev = "Filter ''field'' ''in'' [JInt 1, JInt 2] True"
      and merge = merge_spec and debug = True
      and merged = "Filter ''field'' ''in'' [JInt 1, JInt 2, JInt 3] True"] e
  show ?thesis unfolding w1_def [symmetric] by (simp add: merge_spec_def)
qed

end
